theory Spec2Isabelle
  imports Complex_Main "HOL-Library.Char_ord" "HOL-Library.Multiset" "HOL-Library.Log_Nat"
begin

section \<open>Strings and JavaScript values\<close>

text \<open>
  Strings are lists of 8-bit characters. The language tables and the filename patterns of
  the program live in ASCII, and the case conversions are modelled on the ASCII letters;
  every other character is left as it is.
\<close>

definition isAsciiLower :: "char \<Rightarrow> bool" where
  "isAsciiLower c = (CHR ''a'' \<le> c \<and> c \<le> CHR ''z'')"

definition isAsciiUpper :: "char \<Rightarrow> bool" where
  "isAsciiUpper c = (CHR ''A'' \<le> c \<and> c \<le> CHR ''Z'')"

definition upperChar :: "char \<Rightarrow> char" where
  "upperChar c = (if isAsciiLower c then char_of (of_char c - (32::nat)) else c)"

definition lowerChar :: "char \<Rightarrow> char" where
  "lowerChar c = (if isAsciiUpper c then char_of (of_char c + (32::nat)) else c)"

definition toUpperCase :: "string \<Rightarrow> string" where
  "toUpperCase s = map upperChar s"

definition toLowerCase :: "string \<Rightarrow> string" where
  "toLowerCase s = map lowerChar s"

text \<open>Decimal printing of a number inside a template string.\<close>

fun show_nat :: "nat \<Rightarrow> string" where
  "show_nat n =
     (if n < 10 then [''0123456789'' ! n]
      else show_nat (n div 10) @ [''0123456789'' ! (n mod 10)])"

declare show_nat.simps [simp del]

definition show_int :: "int \<Rightarrow> string" where
  "show_int k = (if k < 0 then ''-'' @ show_nat (nat (- k)) else show_nat (nat k))"

text \<open>\<open>haystack.includes(needle)\<close>.\<close>

fun startsWith :: "string \<Rightarrow> string \<Rightarrow> bool" where
  "startsWith s [] = True"
| "startsWith [] (c # cs) = False"
| "startsWith (x # xs) (c # cs) = (x = c \<and> startsWith xs cs)"

fun includes_str :: "string \<Rightarrow> string \<Rightarrow> bool" where
  "includes_str [] needle = (needle = [])"
| "includes_str (x # xs) needle = (startsWith (x # xs) needle \<or> includes_str xs needle)"

text \<open>
  An object literal used as a dictionary is read with \<open>obj[key]\<close>. The read finds the
  object's own property, or else a member that every object inherits from
  \<open>Object.prototype\<close> (a function, or for \<open>__proto__\<close> the prototype object: never a
  string and always truthy), or else \<open>undefined\<close>.
\<close>

definition object_prototype_members :: "string list" where
  "object_prototype_members =
     [''constructor'', ''hasOwnProperty'', ''isPrototypeOf'', ''propertyIsEnumerable'',
      ''toLocaleString'', ''toString'', ''valueOf'', ''__proto__'',
      ''__defineGetter__'', ''__defineSetter__'', ''__lookupGetter__'', ''__lookupSetter__'']"

datatype 'a property = Own 'a | Inherited | Absent

definition js_get :: "(string \<rightharpoonup> 'a) \<Rightarrow> string \<Rightarrow> 'a property" where
  "js_get obj key =
     (case obj key of
        Some v \<Rightarrow> Own v
      | None \<Rightarrow> if key \<in> set object_prototype_members then Inherited else Absent)"

section \<open>JavaScript numbers\<close>

text \<open>
  A JavaScript number is an IEEE 754 double, and an arithmetic operation returns the exact
  result rounded to the nearest double, a tie going to the double whose last significand
  bit is zero. The numbers of this program are clock readings and durations in
  milliseconds, counts, and the quotients and products that the time estimate forms from
  them. They are modelled by the rationals they denote, and \<open>to_double\<close> is the rounding of
  an exact result: to a significand of 53 bits, ties to even. The exponent is not bounded,
  so the rounding is that of the machine wherever the exact result is zero or has a
  magnitude from \<open>2\<^sup>-\<^sup>1\<^sup>0\<^sup>2\<^sup>2\<close> up to the largest double, which holds for every quotient and
  product of integers below \<open>2\<^sup>5\<^sup>3\<close> in magnitude, and for those divided by 1000 or by 60.
\<close>

text \<open>The nearest integer, a tie going to the even one.\<close>

definition round_half_even :: "rat \<Rightarrow> int" where
  "round_half_even x =
     (let f = \<lfloor>x\<rfloor>; d = x - of_int f in
      if d < 1 / 2 then f
      else if 1 / 2 < d then f + 1
      else if even f then f else f + 1)"

text \<open>For a positive \<open>x\<close>, the integer \<open>k\<close> with \<open>2\<^sup>k \<le> x < 2\<^sup>k\<^sup>+\<^sup>1\<close>.\<close>

definition floor_log2 :: "rat \<Rightarrow> int" where
  "floor_log2 x =
     (if 1 \<le> x then int (floorlog 2 (nat \<lfloor>x\<rfloor>)) - 1
      else - int (floorlog 2 (nat (\<lceil>1 / x\<rceil> - 1))))"

text \<open>\<open>x\<close> times \<open>2\<^sup>e\<close>.\<close>

definition scale2 :: "rat \<Rightarrow> int \<Rightarrow> rat" where
  "scale2 x e = (if 0 \<le> e then x * 2 ^ nat e else x / 2 ^ nat (- e))"

text \<open>The magnitude is scaled into the interval from \<open>2\<^sup>5\<^sup>2\<close> to \<open>2\<^sup>5\<^sup>3\<close>, rounded to an integer
  significand, and scaled back.\<close>

definition to_double :: "rat \<Rightarrow> rat" where
  "to_double x =
     (if x = 0 then 0
      else let e = floor_log2 \<bar>x\<bar> - 52;
               m = round_half_even (scale2 \<bar>x\<bar> (- e))
           in sgn x * scale2 (of_int m) e)"

section \<open>Language names\<close>

text \<open>
  \<open>getLanguageName\<close> of the API client. Its result is a string, except where the table
  read yields an inherited member, which the function then returns as it is.
\<close>

datatype name_value = Text string | PrototypeMember string

definition languages :: "string \<rightharpoonup> string" where
  "languages = map_of
     [(''en'', ''English''),
      (''ja'', ''Japanese''),
      (''es'', ''Spanish''),
      (''fr'', ''French''),
      (''de'', ''German''),
      (''it'', ''Italian''),
      (''pt'', ''Portuguese''),
      (''ru'', ''Russian''),
      (''ko'', ''Korean''),
      (''zh'', ''Chinese''),
      (''zho'', ''Chinese''),
      (''spa'', ''Spanish''),
      (''ar'', ''Arabic''),
      (''unknown'', ''Unknown''),
      (''zh-TW'', ''Chinese (Traditional)''),
      (''zh-HK'', ''Chinese (Hong Kong)''),
      (''zh-CN'', ''Chinese (Simplified)''),
      (''zh-SG'', ''Chinese (Singapore)'')]"

definition getLanguageName :: "string \<Rightarrow> name_value" where
  "getLanguageName code =
     (if code = ''hi'' then Text ''Hearing Impaired''
      else case js_get languages code of
             Own v \<Rightarrow> if v = [] then Text (toUpperCase code) else Text v
           | Inherited \<Rightarrow> PrototypeMember code
           | Absent \<Rightarrow> Text (toUpperCase code))"

section \<open>Language detection from a filename\<close>

text \<open>
  Each of the five regular expressions of \<open>extractLanguageFromFilename\<close> has the shape
  \<open>SEP(GROUP)\.(srt|ass|vtt|sub)$\<close> with the \<open>i\<close> flag: a separator character, a captured
  group of fixed length made of letters (and a hyphen in the second pattern), a dot and
  one of four extensions, anchored at the end of the input. A match therefore is a match
  of the last characters of the filename, and the captured group is unique.
\<close>

datatype atom = Letter | Lit char

fun atom_matches :: "atom \<Rightarrow> char \<Rightarrow> bool" where
  "atom_matches Letter c = (isAsciiLower c \<or> isAsciiUpper c)"
| "atom_matches (Lit l) c = (c = l)"

record pattern =
  sep :: char
  code_group :: "atom list"

definition extensions :: "string list" where
  "extensions = [''srt'', ''ass'', ''vtt'', ''sub'']"

definition patterns :: "pattern list" where
  "patterns =
     [\<lparr>sep = CHR ''.'', code_group = [Letter, Letter]\<rparr>,
      \<lparr>sep = CHR ''.'', code_group = [Letter, Letter, Lit CHR ''-'', Letter, Letter]\<rparr>,
      \<lparr>sep = CHR ''.'', code_group = [Letter, Letter, Letter]\<rparr>,
      \<lparr>sep = CHR ''_'', code_group = [Letter, Letter]\<rparr>,
      \<lparr>sep = CHR ''-'', code_group = [Letter, Letter]\<rparr>]"

text \<open>\<open>filename.match(pattern)\<close>: the captured group 1, or None for null.\<close>

definition regex_match :: "pattern \<Rightarrow> string \<Rightarrow> string option" where
  "regex_match p filename =
     (let g = length (code_group p); n = g + 5 in
      if length filename < n then None
      else
        let t = drop (length filename - n) filename;
            captured = take g (drop 1 t);
            ext = drop (g + 2) t
        in if t ! 0 = sep p \<and> list_all2 atom_matches (code_group p) captured
              \<and> t ! (g + 1) = CHR ''.'' \<and> toLowerCase ext \<in> set extensions
           then Some captured else None)"

fun first_match :: "pattern list \<Rightarrow> string \<Rightarrow> string option" where
  "first_match [] filename = None"
| "first_match (p # ps) filename =
     (case regex_match p filename of
        Some captured \<Rightarrow> Some (toLowerCase captured)
      | None \<Rightarrow> first_match ps filename)"

definition extractLanguageFromFilename :: "string \<Rightarrow> string option" where
  "extractLanguageFromFilename filename = first_match patterns filename"

section \<open>The API's data\<close>

text \<open>
  The records follow the TypeScript interfaces, with the fields the bulk operations read.
  An optional field is an option; \<open>is_dual_subtitle\<close> is only tested for truthiness, so
  it is a boolean (absent is false). The client tests the two subtitle arrays of a
  listing for presence before it reads them, so they are options too.
\<close>

record ExternalSubtitle =
  file_path :: string
  file_name :: string
  language_code :: "string option"
  is_dual_subtitle :: bool
  dual_languages :: "string list option"

record EmbeddedSubtitle =
  languageCode :: "string option"
  stream_index :: int
  display_name :: string

record EpisodeSubtitles =
  embedded_subtitles :: "EmbeddedSubtitle list option"
  external_subtitles :: "ExternalSubtitle list option"

record Episode =
  ep_id :: string
  season_episode :: string
  title :: string

record EmbeddedStream =
  es_stream_index :: int
  es_language_code :: string
  es_display_name :: string

record EpisodeSubtitleInfo =
  episode_id :: string
  ei_season_episode :: string
  ei_title :: string
  has_external :: bool
  has_embedded :: bool
  existing_dual_subtitles :: "ExternalSubtitle list option"
  embedded_streams :: "EmbeddedStream list"

record LanguageAvailability =
  name :: name_value
  episodes_available :: nat
  episodes_with_external :: nat
  episodes_with_embedded :: nat
  episode_details :: "EpisodeSubtitleInfo list"

text \<open>
  \<open>language_availability\<close> is a plain object, filled by the assignments
  \<open>language_availability[key] = value\<close>. Such an assignment creates an own property for
  every key but \<open>__proto__\<close>; for that key it runs the setter that the object inherits,
  which makes the assigned entry the object's prototype and creates no property. The
  record keeps the own properties of the object and, where it was replaced, its
  prototype.
\<close>

record SubtitleAnalysis =
  total_episodes :: nat
  language_availability :: "string \<rightharpoonup> LanguageAvailability"
  availability_prototype :: "LanguageAvailability option"

section \<open>Availability analysis\<close>

text \<open>
  \<open>getSubtitleAnalysis\<close> fetches the show's episodes (\<open>getShowDetail\<close>) and, for each of
  them, its subtitle listing (\<open>getEpisodeSubtitles\<close>); a listing request that fails is
  caught and yields null. The model takes the outcome of these requests as its input:
  the list of episodes, each paired with its listing or None.

  While the analysis runs, an entry of \<open>languageMap\<close> carries three sets of episode ids.
\<close>

record LangData =
  ld_name :: name_value
  ld_episode_details :: "EpisodeSubtitleInfo list"
  episode_ids :: "string set"
  external_episode_ids :: "string set"
  embedded_episode_ids :: "string set"

text \<open>\<open>code || 'unknown'\<close>: an absent or empty code is falsy.\<close>

definition langCodeOf :: "string option \<Rightarrow> string" where
  "langCodeOf c = (case c of None \<Rightarrow> ''unknown'' | Some s \<Rightarrow> if s = [] then ''unknown'' else s)"

definition newLangData :: "string \<Rightarrow> LangData" where
  "newLangData langCode =
     \<lparr>ld_name = getLanguageName langCode, ld_episode_details = [],
      episode_ids = {}, external_episode_ids = {}, embedded_episode_ids = {}\<rparr>"

text \<open>\<open>if (!languageMap.has(langCode)) languageMap.set(langCode, {...})\<close>, then
  \<open>languageMap.get(langCode)\<close>.\<close>

definition getLangData :: "(string \<rightharpoonup> LangData) \<Rightarrow> string \<Rightarrow> LangData" where
  "getLangData languageMap langCode =
     (case languageMap langCode of None \<Rightarrow> newLangData langCode | Some d \<Rightarrow> d)"

text \<open>
  \<open>episodeInfo\<close> is one object per episode. The entries of \<open>episode_details\<close> are
  references to it, and the analysis goes on writing to it (\<open>has_embedded\<close>, the embedded
  streams) after the first reference is stored; what every reader sees afterwards
  is the object's final state, which is what the model stores.
\<close>

definition embeddedStream :: "EmbeddedSubtitle \<Rightarrow> EmbeddedStream" where
  "embeddedStream sub =
     \<lparr>es_stream_index = stream_index sub,
      es_language_code = langCodeOf (languageCode sub),
      es_display_name = display_name sub\<rparr>"

definition episodeInfo :: "Episode \<Rightarrow> EpisodeSubtitles \<Rightarrow> EpisodeSubtitleInfo" where
  "episodeInfo episode subtitles =
     \<lparr>episode_id = ep_id episode,
      ei_season_episode = season_episode episode,
      ei_title = title episode,
      has_external = (case external_subtitles subtitles of None \<Rightarrow> False | Some xs \<Rightarrow> xs \<noteq> []),
      has_embedded = (case embedded_subtitles subtitles of None \<Rightarrow> False | Some es \<Rightarrow> es \<noteq> []),
      existing_dual_subtitles =
        Some (case external_subtitles subtitles of None \<Rightarrow> [] | Some xs \<Rightarrow> filter is_dual_subtitle xs),
      embedded_streams =
        (case embedded_subtitles subtitles of None \<Rightarrow> [] | Some es \<Rightarrow> map embeddedStream es)\<rparr>"

text \<open>The body of the loop over the external subtitles; the state is \<open>languageMap\<close> and
  \<open>episodeLangSet\<close>.\<close>

definition registerExternal ::
  "Episode \<Rightarrow> EpisodeSubtitleInfo \<Rightarrow> (string \<rightharpoonup> LangData) \<times> string set \<Rightarrow> ExternalSubtitle
     \<Rightarrow> (string \<rightharpoonup> LangData) \<times> string set" where
  "registerExternal episode info st sub =
     (let languageMap = fst st; episodeLangSet = snd st in
      if is_dual_subtitle sub then st
      else
        let langCode = langCodeOf (language_code sub);
            langData = getLangData languageMap langCode
        in if langCode \<notin> episodeLangSet
           then (languageMap(langCode \<mapsto> langData
                   \<lparr>ld_episode_details := ld_episode_details langData @ [info],
                    episode_ids := insert (ep_id episode) (episode_ids langData),
                    external_episode_ids := insert (ep_id episode) (external_episode_ids langData)\<rparr>),
                 insert langCode episodeLangSet)
           else (languageMap(langCode \<mapsto> langData), episodeLangSet))"

text \<open>The body of the loop over the embedded subtitles.\<close>

definition registerEmbedded ::
  "Episode \<Rightarrow> EpisodeSubtitleInfo \<Rightarrow> (string \<rightharpoonup> LangData) \<times> string set \<Rightarrow> EmbeddedSubtitle
     \<Rightarrow> (string \<rightharpoonup> LangData) \<times> string set" where
  "registerEmbedded episode info st sub =
     (let languageMap = fst st; episodeLangSet = snd st;
          langCode = langCodeOf (languageCode sub);
          langData = getLangData languageMap langCode
      in if langCode \<notin> episodeLangSet
         then (languageMap(langCode \<mapsto> langData
                 \<lparr>ld_episode_details := ld_episode_details langData @ [info],
                  episode_ids := insert (ep_id episode) (episode_ids langData),
                  embedded_episode_ids := insert (ep_id episode) (embedded_episode_ids langData)\<rparr>),
               insert langCode episodeLangSet)
         else (languageMap(langCode \<mapsto> langData
                 \<lparr>embedded_episode_ids := insert (ep_id episode) (embedded_episode_ids langData)\<rparr>),
               episodeLangSet))"

text \<open>The body of \<open>episodes.forEach\<close>: an episode without a listing is passed over;
  \<open>episodeLangSet\<close> starts empty for each episode.\<close>

definition processEpisode ::
  "(string \<rightharpoonup> LangData) \<Rightarrow> Episode \<times> EpisodeSubtitles option \<Rightarrow> (string \<rightharpoonup> LangData)" where
  "processEpisode languageMap entry =
     (case snd entry of
        None \<Rightarrow> languageMap
      | Some subtitles \<Rightarrow>
          let episode = fst entry;
              info = episodeInfo episode subtitles;
              st1 = (case external_subtitles subtitles of
                       None \<Rightarrow> (languageMap, {})
                     | Some xs \<Rightarrow> foldl (registerExternal episode info) (languageMap, {}) xs);
              st2 = (case embedded_subtitles subtitles of
                       None \<Rightarrow> st1
                     | Some es \<Rightarrow> foldl (registerEmbedded episode info) st1 es)
          in fst st2)"

text \<open>The sets become counts and are dropped.\<close>

definition toAvailability :: "LangData \<Rightarrow> LanguageAvailability" where
  "toAvailability langData =
     \<lparr>name = ld_name langData,
      episodes_available = card (episode_ids langData),
      episodes_with_external = card (external_episode_ids langData),
      episodes_with_embedded = card (embedded_episode_ids langData),
      episode_details = ld_episode_details langData\<rparr>"

definition languageMapOf :: "(Episode \<times> EpisodeSubtitles option) list \<Rightarrow> (string \<rightharpoonup> LangData)" where
  "languageMapOf episodes = foldl processEpisode Map.empty episodes"

text \<open>The entries of \<open>languageMap\<close> are assigned to the object, each under its key.\<close>

definition getSubtitleAnalysis :: "(Episode \<times> EpisodeSubtitles option) list \<Rightarrow> SubtitleAnalysis" where
  "getSubtitleAnalysis episodes =
     \<lparr>total_episodes = length episodes,
      language_availability =
        (\<lambda>langCode. if langCode = ''__proto__'' then None
                    else map_option toAvailability (languageMapOf episodes langCode)),
      availability_prototype = map_option toAvailability (languageMapOf episodes ''__proto__'')\<rparr>"

text \<open>
  \<open>analysis.language_availability[key]\<close>. The read finds an own property, which is an
  entry. Otherwise it goes to the prototype. Where an entry was installed as the
  prototype, the key \<open>__proto__\<close> yields that entry, and the name of one of the entry's five
  fields yields the field's value: a name, a count or an array, none of which is an entry,
  and of which a count of 0 and an empty name are falsy. Every other key, and every key
  where the prototype was not replaced, is looked up among the members that all objects
  inherit, which are truthy and are not entries; a key found nowhere yields \<open>undefined\<close>.
  The callers test the value for truthiness and then read \<open>episode_details\<close> and
  \<open>episodes_available\<close> from it, which only an entry has.
\<close>

datatype availability_read = Entry LanguageAvailability | Truthy | Falsy

definition availability_get :: "SubtitleAnalysis \<Rightarrow> string \<Rightarrow> availability_read" where
  "availability_get analysis key =
     (case language_availability analysis key of
        Some entry \<Rightarrow> Entry entry
      | None \<Rightarrow>
          (case availability_prototype analysis of
             None \<Rightarrow> if key \<in> set object_prototype_members then Truthy else Falsy
           | Some proto \<Rightarrow>
               if key = ''__proto__'' then Entry proto
               else if key = ''name''
               then (case name proto of
                       Text v \<Rightarrow> if v = [] then Falsy else Truthy
                     | PrototypeMember m \<Rightarrow> Truthy)
               else if key = ''episodes_available''
               then (if episodes_available proto = 0 then Falsy else Truthy)
               else if key = ''episodes_with_external''
               then (if episodes_with_external proto = 0 then Falsy else Truthy)
               else if key = ''episodes_with_embedded''
               then (if episodes_with_embedded proto = 0 then Falsy else Truthy)
               else if key = ''episode_details'' then Truthy
               else if key \<in> set object_prototype_members then Truthy else Falsy))"

section \<open>Episode statistics of the preview step\<close>

text \<open>
  The \<open>stats\<close> memo of \<open>EpisodePreviewStep\<close>. JavaScript numbers are integers here and
  subtraction does not truncate, so the counts are of type \<open>int\<close>. A language code for
  which the availability object yields a truthy value that is not an entry has neither
  \<open>episode_details\<close> nor counts: filtering against it throws a TypeError, and where the
  filter has nothing to test the counts come out as NaN.
\<close>

record Stats =
  ready :: int
  needsAttention :: int
  willSkip :: int
  alreadyExists :: int

datatype Failure = LanguagesNotAvailable | TypeError | NotANumber | ShowRequestFailed

text \<open>The test applied to one existing dual subtitle: its first two languages are the
  requested pair, in either order.\<close>

definition isRequestedPair :: "string \<Rightarrow> string \<Rightarrow> ExternalSubtitle \<Rightarrow> bool" where
  "isRequestedPair primaryLang secondaryLang dualSub =
     (case dual_languages dualSub of
        None \<Rightarrow> False
      | Some ls \<Rightarrow>
          if length ls < 2 then False
          else (ls ! 0 = primaryLang \<and> ls ! 1 = secondaryLang)
             \<or> (ls ! 0 = secondaryLang \<and> ls ! 1 = primaryLang))"

definition episodeHasDualSubtitle :: "EpisodeSubtitleInfo \<Rightarrow> string \<Rightarrow> string \<Rightarrow> bool" where
  "episodeHasDualSubtitle episode primaryLang secondaryLang =
     (case existing_dual_subtitles episode of
        None \<Rightarrow> False
      | Some ds \<Rightarrow> list_ex (isRequestedPair primaryLang secondaryLang) ds)"

text \<open>The memo and the bulk run both filter the primary language's episodes by the ids
  of the secondary language's, and apply the test of \<open>episodeHasDualSubtitle\<close> inline.\<close>

definition episodesWithBoth ::
  "LanguageAvailability \<Rightarrow> LanguageAvailability \<Rightarrow> EpisodeSubtitleInfo list" where
  "episodesWithBoth primaryAvail secondaryAvail =
     filter (\<lambda>ep. list_ex (\<lambda>secEp. episode_id secEp = episode_id ep) (episode_details secondaryAvail))
       (episode_details primaryAvail)"

definition statsOf ::
  "SubtitleAnalysis \<Rightarrow> string \<Rightarrow> string \<Rightarrow> LanguageAvailability \<Rightarrow> LanguageAvailability \<Rightarrow> Stats" where
  "statsOf analysis primaryLanguage secondaryLanguage primaryAvail secondaryAvail =
     (let both = episodesWithBoth primaryAvail secondaryAvail;
          episodesWithExistingDual =
            filter (\<lambda>ep. episodeHasDualSubtitle ep primaryLanguage secondaryLanguage) both;
          alreadyExists = int (length episodesWithExistingDual);
          ready = int (length both) - alreadyExists;
          maxAvailable = max (int (episodes_available primaryAvail)) (int (episodes_available secondaryAvail));
          needsAttention = maxAvailable - int (length both);
          willSkip = int (total_episodes analysis) - maxAvailable
      in \<lparr>ready = ready, needsAttention = needsAttention, willSkip = willSkip,
          alreadyExists = alreadyExists\<rparr>)"

definition stats :: "SubtitleAnalysis \<Rightarrow> string \<Rightarrow> string \<Rightarrow> Failure + Stats" where
  "stats analysis primaryLanguage secondaryLanguage =
     (let none = \<lparr>ready = 0, needsAttention = 0, willSkip = int (total_episodes analysis),
                  alreadyExists = 0\<rparr> in
      case availability_get analysis primaryLanguage of
        Falsy \<Rightarrow> Inr none
      | Truthy \<Rightarrow>
          (case availability_get analysis secondaryLanguage of
             Falsy \<Rightarrow> Inr none
           | _ \<Rightarrow> Inl TypeError)
      | Entry primaryAvail \<Rightarrow>
          (case availability_get analysis secondaryLanguage of
             Falsy \<Rightarrow> Inr none
           | Truthy \<Rightarrow>
               if episode_details primaryAvail = [] then Inl NotANumber else Inl TypeError
           | Entry secondaryAvail \<Rightarrow>
               Inr (statsOf analysis primaryLanguage secondaryLanguage primaryAvail secondaryAvail)))"

section \<open>Bulk creation of dual subtitles\<close>

subsection \<open>Requests, responses and results\<close>

datatype position = Top | Bottom

datatype output_format = Ass | Srt

record DualSubtitleConfig =
  primary_position :: position
  secondary_position :: position
  primary_color :: string
  secondary_color :: string
  primary_font_size :: int
  secondary_font_size :: int
  primary_language :: string
  secondary_language :: string
  output_format :: output_format

text \<open>The request body: the styling configuration spread into an object with five more
  fields.\<close>

record BulkRequest =
  styling :: DualSubtitleConfig
  primary_subtitle :: string
  secondary_subtitle :: string
  enable_sync :: bool
  sync_method :: string
  bulk_mode :: bool

record DualSubtitleResult =
  success :: bool
  message :: string
  output_file :: string
  output_path :: string

text \<open>What the catch block reads of a thrown error.\<close>

record ApiError =
  err_code :: "string option"
  err_message :: "string option"
  err_status :: "int option"
  err_detail :: "string option"

record SuccessfulEntry =
  s_episode_id :: string
  s_output_file :: string
  s_episode_title :: string

record FailedEntry =
  f_episode_id :: string
  f_error :: string
  f_episode_title :: string

record SkippedEntry =
  k_episode_id :: string
  k_reason :: string

record Results =
  successful :: "SuccessfulEntry list"
  failed :: "FailedEntry list"
  skipped :: "SkippedEntry list"

record Progress =
  processed :: nat
  total :: nat
  currentEpisode :: "string option"
  estimatedTimeRemaining :: "string option"
  averageTimePerEpisode :: "int option"

subsection \<open>Time estimates\<close>

text \<open>
  Durations are differences of \<open>Date.now()\<close> readings, integers of milliseconds, and their
  sum is an integer, exact below \<open>2\<^sup>5\<^sup>3\<close>. The quotient of the average, the product of the
  estimate and the divisions by 1000 and by 60 each round to a double. \<open>Math.round\<close>
  returns the integer nearest to its argument, a tie going upwards, and \<open>Math.floor\<close> the
  floor; neither rounds again, for the integer is a double.
\<close>

definition math_round :: "rat \<Rightarrow> int" where
  "math_round x = \<lfloor>x + 1 / 2\<rfloor>"

definition averageTime :: "int list \<Rightarrow> rat" where
  "averageTime episodeTimes =
     (if length episodeTimes > 0
      then to_double (of_int (foldl (+) 0 episodeTimes) / of_nat (length episodeTimes))
      else 45000)"

definition estimatedRemainingMs :: "nat \<Rightarrow> nat \<Rightarrow> int list \<Rightarrow> rat" where
  "estimatedRemainingMs total_n i episodeTimes =
     to_double (of_int (int total_n - int i) * averageTime episodeTimes)"

text \<open>\<open>remainingSeconds\<close> is printed only where \<open>minutes > 0\<close>, where \<open>seconds\<close> is positive and
  the remainder of JavaScript and \<open>mod\<close> agree.\<close>

definition formatTimeRemaining :: "rat \<Rightarrow> string" where
  "formatTimeRemaining ms =
     (let seconds = math_round (to_double (ms / 1000));
          minutes = \<lfloor>to_double (of_int seconds / 60)\<rfloor>;
          remainingSeconds = seconds mod 60
      in if minutes > 0 then show_int minutes @ ''m '' @ show_int remainingSeconds @ ''s''
         else show_int seconds @ ''s'')"

definition progressReport :: "nat \<Rightarrow> nat \<Rightarrow> EpisodeSubtitleInfo \<Rightarrow> int list \<Rightarrow> Progress" where
  "progressReport total_n i episode episodeTimes =
     \<lparr>processed = i, total = total_n,
      currentEpisode = Some (ei_season_episode episode @ '': '' @ ei_title episode),
      estimatedTimeRemaining = Some (formatTimeRemaining (estimatedRemainingMs total_n i episodeTimes)),
      averageTimePerEpisode = Some (math_round (to_double (averageTime episodeTimes / 1000)))\<rparr>"

definition finalReport :: "nat \<Rightarrow> Progress" where
  "finalReport total_n =
     \<lparr>processed = total_n, total = total_n, currentEpisode = None,
      estimatedTimeRemaining = None, averageTimePerEpisode = None\<rparr>"

subsection \<open>One task\<close>

text \<open>
  What the outside world answers while task \<open>i\<close> runs: the clock at its start, the
  episode's subtitle listing as it is at that moment (or the error thrown), the answer
  to the creation request for a given body (or the error thrown), and the clock
  after the creation returned. Responses are taken at their declared types.
\<close>

record TaskWorld =
  startTime :: int
  listing :: "ApiError + EpisodeSubtitles"
  creation :: "BulkRequest \<Rightarrow> ApiError + DualSubtitleResult"
  endTime :: int

text \<open>\<open>value || fallback\<close> on an optional string.\<close>

definition or_else :: "string option \<Rightarrow> string \<Rightarrow> string" where
  "or_else v fallback = (case v of None \<Rightarrow> fallback | Some s \<Rightarrow> if s = [] then fallback else s)"

definition errorMessageOf :: "ApiError \<Rightarrow> string" where
  "errorMessageOf error =
     (let errorMessage = or_else (err_message error) ''Unknown error'' in
      if err_code error = Some ''ECONNABORTED'' \<or> includes_str errorMessage ''timeout''
      then ''Processing timeout (subtitle creation takes longer than expected)''
      else if err_status error = Some 500
      then or_else (err_detail error) ''Server error during subtitle creation''
      else if err_status error = Some 404
      then ''Episode or subtitle files not found''
      else errorMessage)"

definition externalFor :: "EpisodeSubtitles \<Rightarrow> string \<Rightarrow> ExternalSubtitle option" where
  "externalFor episodeSubtitles lang =
     (case external_subtitles episodeSubtitles of
        None \<Rightarrow> None
      | Some xs \<Rightarrow> List.find (\<lambda>sub. language_code sub = Some lang) xs)"

definition embeddedFor :: "EpisodeSubtitles \<Rightarrow> string \<Rightarrow> EmbeddedSubtitle option" where
  "embeddedFor episodeSubtitles lang =
     (case embedded_subtitles episodeSubtitles of
        None \<Rightarrow> None
      | Some es \<Rightarrow> List.find (\<lambda>sub. languageCode sub = Some lang) es)"

text \<open>\<open>sub?.file_path || `embedded:${...?.stream_index}`\<close>.\<close>

definition sourceRef :: "EpisodeSubtitles \<Rightarrow> string \<Rightarrow> string" where
  "sourceRef episodeSubtitles lang =
     (let embeddedRef =
            ''embedded:'' @ (case embeddedFor episodeSubtitles lang of
                               None \<Rightarrow> ''undefined''
                             | Some e \<Rightarrow> show_int (stream_index e))
      in case externalFor episodeSubtitles lang of
           None \<Rightarrow> embeddedRef
         | Some sub \<Rightarrow> if file_path sub = [] then embeddedRef else file_path sub)"

definition requestFor :: "DualSubtitleConfig \<Rightarrow> EpisodeSubtitles \<Rightarrow> string \<Rightarrow> string \<Rightarrow> BulkRequest" where
  "requestFor stylingConfig episodeSubtitles primaryLanguage secondaryLanguage =
     \<lparr>styling = stylingConfig,
      primary_subtitle = sourceRef episodeSubtitles primaryLanguage,
      secondary_subtitle = sourceRef episodeSubtitles secondaryLanguage,
      enable_sync = True, sync_method = ''auto'', bulk_mode = True\<rparr>"

text \<open>
  The \<open>try\<close> block of the loop body up to the point where it leaves: by \<open>continue\<close> with
  a reason to skip, by a thrown error (from the listing, before any request, or from
  the creation request), or through the creation request's answer.
\<close>

datatype Attempt =
    Skip string
  | Threw "BulkRequest option" ApiError
  | Done BulkRequest DualSubtitleResult

definition attempt ::
  "TaskWorld \<Rightarrow> string \<Rightarrow> string \<Rightarrow> DualSubtitleConfig \<Rightarrow> Attempt" where
  "attempt w primaryLanguage secondaryLanguage stylingConfig =
     (case listing w of
        Inl error \<Rightarrow> Threw None error
      | Inr episodeSubtitles \<Rightarrow>
          let primarySub = externalFor episodeSubtitles primaryLanguage;
              secondarySub = externalFor episodeSubtitles secondaryLanguage;
              primaryEmbedded = embeddedFor episodeSubtitles primaryLanguage;
              secondaryEmbedded = embeddedFor episodeSubtitles secondaryLanguage
          in if (primarySub = None \<or> secondarySub = None)
                \<and> primarySub = None \<and> primaryEmbedded = None
             then Skip (''Missing '' @ primaryLanguage @ '' subtitle'')
             else if (primarySub = None \<or> secondarySub = None)
                     \<and> secondarySub = None \<and> secondaryEmbedded = None
             then Skip (''Missing '' @ secondaryLanguage @ '' subtitle'')
             else
               let config = requestFor stylingConfig episodeSubtitles primaryLanguage secondaryLanguage
               in (case creation w config of
                     Inl error \<Rightarrow> Threw (Some config) error
                   | Inr result \<Rightarrow> Done config result))"

text \<open>
  The state of the loop: the three result lists and the timing history, with the two
  things the loop sends out: the progress reports (what \<open>onProgress\<close> receives, when it
  is given) and the creation requests, each with the episode it was sent for.
\<close>

record RunState =
  results :: Results
  episodeTimes :: "int list"
  reports :: "Progress list"
  requests :: "(string \<times> BulkRequest) list"

definition logRequest :: "string \<Rightarrow> BulkRequest option \<Rightarrow> RunState \<Rightarrow> RunState" where
  "logRequest eid request st =
     (case request of None \<Rightarrow> st | Some config \<Rightarrow> st\<lparr>requests := requests st @ [(eid, config)]\<rparr>)"

text \<open>One pass of the loop body for the task at index \<open>i\<close>.\<close>

definition processTask ::
  "TaskWorld \<Rightarrow> string \<Rightarrow> string \<Rightarrow> DualSubtitleConfig \<Rightarrow> nat \<Rightarrow> nat \<Rightarrow> EpisodeSubtitleInfo
     \<Rightarrow> RunState \<Rightarrow> RunState" where
  "processTask w primaryLanguage secondaryLanguage stylingConfig total_n i episode st =
     (let st0 = st\<lparr>reports := reports st @ [progressReport total_n i episode (episodeTimes st)]\<rparr>;
          r = results st0
      in case attempt w primaryLanguage secondaryLanguage stylingConfig of
           Skip why \<Rightarrow>
             st0\<lparr>results := r\<lparr>skipped := skipped r @
                    [\<lparr>k_episode_id = episode_id episode, k_reason = why\<rparr>]\<rparr>\<rparr>
         | Threw request error \<Rightarrow>
             (logRequest (episode_id episode) request st0)
               \<lparr>results := r\<lparr>failed := failed r @
                    [\<lparr>f_episode_id = episode_id episode, f_error = errorMessageOf error,
                      f_episode_title = ei_title episode\<rparr>]\<rparr>\<rparr>
         | Done config result \<Rightarrow>
             (logRequest (episode_id episode) (Some config) st0)
               \<lparr>episodeTimes := episodeTimes st0 @ [endTime w - startTime w],
                results := r\<lparr>successful := successful r @
                    [\<lparr>s_episode_id = episode_id episode, s_output_file = output_file result,
                      s_episode_title = ei_title episode\<rparr>]\<rparr>\<rparr>)"

subsection \<open>The run\<close>

fun bulkLoop ::
  "(nat \<Rightarrow> TaskWorld) \<Rightarrow> string \<Rightarrow> string \<Rightarrow> DualSubtitleConfig \<Rightarrow> nat \<Rightarrow> nat
     \<Rightarrow> EpisodeSubtitleInfo list \<Rightarrow> RunState \<Rightarrow> RunState" where
  "bulkLoop world primaryLanguage secondaryLanguage stylingConfig total_n i [] st = st"
| "bulkLoop world primaryLanguage secondaryLanguage stylingConfig total_n i (episode # rest) st =
     bulkLoop world primaryLanguage secondaryLanguage stylingConfig total_n (Suc i) rest
       (processTask (world i) primaryLanguage secondaryLanguage stylingConfig total_n i episode st)"

definition initialState :: RunState where
  "initialState =
     \<lparr>results = \<lparr>successful = [], failed = [], skipped = []\<rparr>,
      episodeTimes = [], reports = [], requests = []\<rparr>"

definition episodesToProcess ::
  "string \<Rightarrow> string \<Rightarrow> LanguageAvailability \<Rightarrow> LanguageAvailability \<Rightarrow> EpisodeSubtitleInfo list" where
  "episodesToProcess primaryLanguage secondaryLanguage primaryAvail secondaryAvail =
     filter (\<lambda>ep. case existing_dual_subtitles ep of
                    None \<Rightarrow> True
                  | Some ds \<Rightarrow> \<not> list_ex (isRequestedPair primaryLanguage secondaryLanguage) ds)
       (episodesWithBoth primaryAvail secondaryAvail)"

definition runTasks ::
  "(nat \<Rightarrow> TaskWorld) \<Rightarrow> string \<Rightarrow> string \<Rightarrow> DualSubtitleConfig \<Rightarrow> EpisodeSubtitleInfo list \<Rightarrow> RunState" where
  "runTasks world primaryLanguage secondaryLanguage stylingConfig tasks =
     (let total_n = length tasks;
          st = bulkLoop world primaryLanguage secondaryLanguage stylingConfig total_n 0 tasks initialState
      in st\<lparr>reports := reports st @ [finalReport total_n]\<rparr>)"

text \<open>
  \<open>processBulkDualSubtitles\<close>. Its first argument is the outcome of the analysis's
  requests: None when the show request fails (the run then rejects), else the episodes
  with their listings. The returned value of the source is \<open>results\<close> of the final state.
\<close>

definition processBulkDualSubtitles ::
  "(Episode \<times> EpisodeSubtitles option) list option \<Rightarrow> (nat \<Rightarrow> TaskWorld) \<Rightarrow> string \<Rightarrow> string
     \<Rightarrow> DualSubtitleConfig \<Rightarrow> Failure + RunState" where
  "processBulkDualSubtitles showDetail world primaryLanguage secondaryLanguage stylingConfig =
     (case showDetail of
        None \<Rightarrow> Inl ShowRequestFailed
      | Some episodes \<Rightarrow>
          let analysis = getSubtitleAnalysis episodes in
          (case availability_get analysis primaryLanguage of
             Falsy \<Rightarrow> Inl LanguagesNotAvailable
           | Truthy \<Rightarrow>
               (case availability_get analysis secondaryLanguage of
                  Falsy \<Rightarrow> Inl LanguagesNotAvailable
                | _ \<Rightarrow> Inl TypeError)
           | Entry primaryAvail \<Rightarrow>
               (case availability_get analysis secondaryLanguage of
                  Falsy \<Rightarrow> Inl LanguagesNotAvailable
                | Truthy \<Rightarrow>
                    if episode_details primaryAvail = []
                    then Inr (runTasks world primaryLanguage secondaryLanguage stylingConfig [])
                    else Inl TypeError
                | Entry secondaryAvail \<Rightarrow>
                    Inr (runTasks world primaryLanguage secondaryLanguage stylingConfig
                           (episodesToProcess primaryLanguage secondaryLanguage primaryAvail secondaryAvail)))))"

section \<open>Notions used to state the properties\<close>

text \<open>
  The language codes an episode's listing offers: through its external tracks that are
  not flagged as dual subtitles, and through its embedded tracks. A missing or empty
  code counts as \<open>unknown\<close>.
\<close>

type_synonym entry = "Episode \<times> EpisodeSubtitles option"

definition externalCodes :: "EpisodeSubtitles \<Rightarrow> string list" where
  "externalCodes subtitles =
     (case external_subtitles subtitles of
        None \<Rightarrow> []
      | Some xs \<Rightarrow> map (\<lambda>sub. langCodeOf (language_code sub)) (filter (\<lambda>sub. \<not> is_dual_subtitle sub) xs))"

definition embeddedCodes :: "EpisodeSubtitles \<Rightarrow> string list" where
  "embeddedCodes subtitles =
     (case embedded_subtitles subtitles of
        None \<Rightarrow> []
      | Some es \<Rightarrow> map (\<lambda>sub. langCodeOf (languageCode sub)) es)"

definition hasExternal :: "string \<Rightarrow> entry \<Rightarrow> bool" where
  "hasExternal langCode entry =
     (case snd entry of None \<Rightarrow> False | Some subtitles \<Rightarrow> langCode \<in> set (externalCodes subtitles))"

definition hasEmbedded :: "string \<Rightarrow> entry \<Rightarrow> bool" where
  "hasEmbedded langCode entry =
     (case snd entry of None \<Rightarrow> False | Some subtitles \<Rightarrow> langCode \<in> set (embeddedCodes subtitles))"

definition hasLanguage :: "string \<Rightarrow> entry \<Rightarrow> bool" where
  "hasLanguage langCode entry = (hasExternal langCode entry \<or> hasEmbedded langCode entry)"

text \<open>The ids of the episodes that satisfy a condition: a set, so an episode counts once.\<close>

definition idsWhere :: "(entry \<Rightarrow> bool) \<Rightarrow> entry list \<Rightarrow> string set" where
  "idsWhere P episodes = set (map (\<lambda>entry. ep_id (fst entry)) (filter P episodes))"

text \<open>The \<open>episodeInfo\<close> object of an episode that has a listing.\<close>

definition entryInfo :: "entry \<Rightarrow> EpisodeSubtitleInfo" where
  "entryInfo entry = episodeInfo (fst entry) (the (snd entry))"

text \<open>The same listing with the tracks flagged as dual subtitles taken out.\<close>

definition dropDualTracks :: "entry \<Rightarrow> entry" where
  "dropDualTracks entry =
     (fst entry,
      map_option
        (\<lambda>subtitles. subtitles\<lparr>external_subtitles :=
            map_option (filter (\<lambda>sub. \<not> is_dual_subtitle sub)) (external_subtitles subtitles)\<rparr>)
        (snd entry))"

definition countsOf :: "LanguageAvailability \<Rightarrow> nat \<times> nat \<times> nat" where
  "countsOf av = (episodes_available av, episodes_with_external av, episodes_with_embedded av)"

text \<open>The entry that a read of the availability object yields, if it yields one.\<close>

definition entryOf :: "availability_read \<Rightarrow> LanguageAvailability option" where
  "entryOf v = (case v of Entry entry \<Rightarrow> Some entry | _ \<Rightarrow> None)"

text \<open>The entry of \<open>languageMap\<close> for a language once a list of episodes is processed,
  and the updates one episode makes to it.\<close>

definition langDataAfter :: "entry list \<Rightarrow> string \<Rightarrow> LangData" where
  "langDataAfter episodes langCode =
     \<lparr>ld_name = getLanguageName langCode,
      ld_episode_details = map entryInfo (filter (hasLanguage langCode) episodes),
      episode_ids = idsWhere (hasLanguage langCode) episodes,
      external_episode_ids = idsWhere (hasExternal langCode) episodes,
      embedded_episode_ids = idsWhere (hasEmbedded langCode) episodes\<rparr>"

definition nonDualCodes :: "ExternalSubtitle list \<Rightarrow> string list" where
  "nonDualCodes xs =
     map (\<lambda>sub. langCodeOf (language_code sub)) (filter (\<lambda>sub. \<not> is_dual_subtitle sub) xs)"

definition allCodes :: "EmbeddedSubtitle list \<Rightarrow> string list" where
  "allCodes es = map (\<lambda>sub. langCodeOf (languageCode sub)) es"

definition addExternal :: "Episode \<Rightarrow> EpisodeSubtitleInfo \<Rightarrow> LangData \<Rightarrow> LangData" where
  "addExternal episode info d =
     d\<lparr>ld_episode_details := ld_episode_details d @ [info],
       episode_ids := insert (ep_id episode) (episode_ids d),
       external_episode_ids := insert (ep_id episode) (external_episode_ids d)\<rparr>"

definition addEmbedded :: "Episode \<Rightarrow> EpisodeSubtitleInfo \<Rightarrow> LangData \<Rightarrow> LangData" where
  "addEmbedded episode info d =
     d\<lparr>ld_episode_details := ld_episode_details d @ [info],
       episode_ids := insert (ep_id episode) (episode_ids d),
       embedded_episode_ids := insert (ep_id episode) (embedded_episode_ids d)\<rparr>"

definition markEmbedded :: "Episode \<Rightarrow> LangData \<Rightarrow> LangData" where
  "markEmbedded episode d =
     d\<lparr>embedded_episode_ids := insert (ep_id episode) (embedded_episode_ids d)\<rparr>"

text \<open>The episodes present in exactly one of two sets of episode ids.\<close>

definition exactlyOne :: "string set \<Rightarrow> string set \<Rightarrow> string set" where
  "exactlyOne A B = (A - B) \<union> (B - A)"

text \<open>
  An episode has an existing dual subtitle for the requested pair when one of its
  external tracks is flagged as a dual subtitle and covers the two languages, in
  either order. An episode is ready for a pair when it offers both languages and has
  no such track.
\<close>

definition hasDualFor :: "string \<Rightarrow> string \<Rightarrow> entry \<Rightarrow> bool" where
  "hasDualFor p s entry =
     (case snd entry of
        None \<Rightarrow> False
      | Some subtitles \<Rightarrow>
          (case external_subtitles subtitles of
             None \<Rightarrow> False
           | Some xs \<Rightarrow> list_ex (\<lambda>sub. is_dual_subtitle sub \<and> isRequestedPair p s sub) xs))"

definition readyFor :: "string \<Rightarrow> string \<Rightarrow> entry \<Rightarrow> bool" where
  "readyFor p s entry = (hasLanguage p entry \<and> hasLanguage s entry \<and> \<not> hasDualFor p s entry)"

text \<open>The task list of a bulk run: \<open>episodesToProcess\<close> of the analysis, where both
  languages are available.\<close>

definition taskList :: "entry list \<Rightarrow> string \<Rightarrow> string \<Rightarrow> EpisodeSubtitleInfo list" where
  "taskList episodes p s =
     (case availability_get (getSubtitleAnalysis episodes) p of
        Entry primaryAvail \<Rightarrow>
          (case availability_get (getSubtitleAnalysis episodes) s of
             Entry secondaryAvail \<Rightarrow> episodesToProcess p s primaryAvail secondaryAvail
           | _ \<Rightarrow> [])
      | _ \<Rightarrow> [])"


text \<open>What one task contributes to each list of the run's state, and the durations
  recorded before task \<open>k\<close> starts.\<close>

definition resultIds :: "Results \<Rightarrow> string list" where
  "resultIds r = map s_episode_id (successful r) @ map f_episode_id (failed r) @ map k_episode_id (skipped r)"

definition taskTimes :: "TaskWorld \<Rightarrow> string \<Rightarrow> string \<Rightarrow> DualSubtitleConfig \<Rightarrow> int list" where
  "taskTimes w p s cfg = (case attempt w p s cfg of Done config result \<Rightarrow> [endTime w - startTime w] | _ \<Rightarrow> [])"

definition recordedBefore :: "(nat \<Rightarrow> TaskWorld) \<Rightarrow> string \<Rightarrow> string \<Rightarrow> DualSubtitleConfig \<Rightarrow> nat \<Rightarrow> int list" where
  "recordedBefore world p s cfg k = concat (map (\<lambda>j. taskTimes (world j) p s cfg) [0..<k])"

definition skippedAt :: "TaskWorld \<Rightarrow> string \<Rightarrow> string \<Rightarrow> DualSubtitleConfig \<Rightarrow> EpisodeSubtitleInfo \<Rightarrow> SkippedEntry list" where
  "skippedAt w p s cfg ep =
     (case attempt w p s cfg of Skip why \<Rightarrow> [\<lparr>k_episode_id = episode_id ep, k_reason = why\<rparr>] | _ \<Rightarrow> [])"

definition failedAt :: "TaskWorld \<Rightarrow> string \<Rightarrow> string \<Rightarrow> DualSubtitleConfig \<Rightarrow> EpisodeSubtitleInfo \<Rightarrow> FailedEntry list" where
  "failedAt w p s cfg ep =
     (case attempt w p s cfg of
        Threw request error \<Rightarrow> [\<lparr>f_episode_id = episode_id ep, f_error = errorMessageOf error,
                                 f_episode_title = ei_title ep\<rparr>]
      | _ \<Rightarrow> [])"

definition successfulAt :: "TaskWorld \<Rightarrow> string \<Rightarrow> string \<Rightarrow> DualSubtitleConfig \<Rightarrow> EpisodeSubtitleInfo \<Rightarrow> SuccessfulEntry list" where
  "successfulAt w p s cfg ep =
     (case attempt w p s cfg of
        Done config result \<Rightarrow> [\<lparr>s_episode_id = episode_id ep, s_output_file = output_file result,
                                 s_episode_title = ei_title ep\<rparr>]
      | _ \<Rightarrow> [])"

definition requestsAt :: "TaskWorld \<Rightarrow> string \<Rightarrow> string \<Rightarrow> DualSubtitleConfig \<Rightarrow> EpisodeSubtitleInfo \<Rightarrow> (string \<times> BulkRequest) list" where
  "requestsAt w p s cfg ep =
     (case attempt w p s cfg of
        Skip why \<Rightarrow> []
      | Threw request error \<Rightarrow> (case request of None \<Rightarrow> [] | Some config \<Rightarrow> [(episode_id ep, config)])
      | Done config result \<Rightarrow> [(episode_id ep, config)])"

text \<open>The state the loop reaches, written out.\<close>

definition loopResult ::
  "(nat \<Rightarrow> TaskWorld) \<Rightarrow> string \<Rightarrow> string \<Rightarrow> DualSubtitleConfig \<Rightarrow> nat \<Rightarrow> EpisodeSubtitleInfo list \<Rightarrow> RunState" where
  "loopResult world p s cfg n tasks =
     \<lparr>results = \<lparr>successful = concat (map (\<lambda>(k, ep). successfulAt (world k) p s cfg ep) (List.enumerate 0 tasks)),
                  failed = concat (map (\<lambda>(k, ep). failedAt (world k) p s cfg ep) (List.enumerate 0 tasks)),
                  skipped = concat (map (\<lambda>(k, ep). skippedAt (world k) p s cfg ep) (List.enumerate 0 tasks))\<rparr>,
      episodeTimes = recordedBefore world p s cfg (length tasks),
      reports = map (\<lambda>(k, ep). progressReport n k ep (recordedBefore world p s cfg k)) (List.enumerate 0 tasks),
      requests = concat (map (\<lambda>(k, ep). requestsAt (world k) p s cfg ep) (List.enumerate 0 tasks))\<rparr>"

subsection \<open>Small shows\<close>

text \<open>Concrete inputs on which the properties below are evaluated.\<close>

definition externalTrack :: "string \<Rightarrow> string \<Rightarrow> ExternalSubtitle" where
  "externalTrack path lang =
     \<lparr>file_path = path, file_name = path, language_code = Some lang,
      is_dual_subtitle = False, dual_languages = None\<rparr>"

definition dualTrack :: "string \<Rightarrow> string \<Rightarrow> string \<Rightarrow> ExternalSubtitle" where
  "dualTrack path lang1 lang2 =
     \<lparr>file_path = path, file_name = path, language_code = Some lang1,
      is_dual_subtitle = True, dual_languages = Some [lang1, lang2]\<rparr>"

definition embeddedTrack :: "string \<Rightarrow> int \<Rightarrow> EmbeddedSubtitle" where
  "embeddedTrack lang i = \<lparr>languageCode = Some lang, stream_index = i, display_name = lang\<rparr>"

definition episodeNamed :: "string \<Rightarrow> Episode" where
  "episodeNamed i = \<lparr>ep_id = i, season_episode = ''S01E'' @ i, title = ''Episode '' @ i\<rparr>"

definition listingOf :: "ExternalSubtitle list \<Rightarrow> EmbeddedSubtitle list \<Rightarrow> EpisodeSubtitles" where
  "listingOf xs es = \<lparr>embedded_subtitles = Some es, external_subtitles = Some xs\<rparr>"

definition splitShow :: "entry list" where
  "splitShow =
     [(episodeNamed ''201'', Some (listingOf [externalTrack ''/tv/201.en.srt'' ''en''] [])),
      (episodeNamed ''202'', Some (listingOf [externalTrack ''/tv/202.ja.srt'' ''ja''] []))]"

definition sampleShow :: "entry list" where
  "sampleShow =
     [(episodeNamed ''301'', Some (listingOf [externalTrack ''/tv/301.en.srt'' ''en'',
                                             externalTrack ''/tv/301.ja.srt'' ''ja''] [])),
      (episodeNamed ''302'', Some (listingOf [externalTrack ''/tv/302.en.srt'' ''en''] [])),
      (episodeNamed ''303'', Some (listingOf [] [embeddedTrack ''en'' 2, embeddedTrack ''ja'' 3])),
      (episodeNamed ''304'', Some (listingOf [externalTrack ''/tv/304.en.srt'' ''en'',
                                             externalTrack ''/tv/304.ja.srt'' ''ja'',
                                             dualTrack ''/tv/304.ja.en.dual.ass'' ''ja'' ''en''] [])),
      (episodeNamed ''305'', Some (listingOf [externalTrack ''/tv/305.en.srt'' ''en'']
                                            [embeddedTrack ''ja'' 4])),
      (episodeNamed ''306'', None)]"

text \<open>
  A show whose first episode has two English files, an English embedded stream and an
  embedded stream without a code; whose second has a dual subtitle and an embedded stream
  of the code \<open>__proto__\<close>; and whose third has files of English, of the code \<open>xx\<close> and of
  an empty code.
\<close>

definition mixedShow :: "entry list" where
  "mixedShow =
     [(episodeNamed ''401'', Some (listingOf
         [externalTrack ''/tv/401.en.srt'' ''en'', externalTrack ''/tv/401.en.forced.srt'' ''en'']
         [embeddedTrack ''en'' 2,
          \<lparr>languageCode = None, stream_index = 3, display_name = ''Commentary''\<rparr>])),
      (episodeNamed ''402'', Some (listingOf
         [dualTrack ''/tv/402.ja.en.dual.ass'' ''ja'' ''en'']
         [embeddedTrack ''__proto__'' 1])),
      (episodeNamed ''403'', Some (listingOf
         [externalTrack ''/tv/403.en.srt'' ''en'', externalTrack ''/tv/403.xx.srt'' ''xx'',
          externalTrack ''/tv/403.srt'' '''']
         []))]"

text \<open>
  A styling configuration, a creation response, and two worlds for runs over
  \<open>sampleShow\<close> with English and Japanese, whose tasks are the episodes 301, 303 and
  305. In \<open>sampleWorld\<close> the first task succeeds after 20 seconds, the second finds the
  English track gone when its listing is read again, and the third runs into a
  timeout. In \<open>steadyWorld\<close> every task succeeds, with the durations given.
\<close>

definition sampleConfig :: DualSubtitleConfig where
  "sampleConfig =
     \<lparr>primary_position = Bottom, secondary_position = Top,
      primary_color = ''#FFFFFF'', secondary_color = ''#FFFF00'',
      primary_font_size = 22, secondary_font_size = 20,
      primary_language = ''en'', secondary_language = ''ja'', output_format = Ass\<rparr>"

definition createdFile :: "string \<Rightarrow> DualSubtitleResult" where
  "createdFile path =
     \<lparr>success = True, message = ''Dual subtitle created'', output_file = path, output_path = path\<rparr>"

definition timeoutError :: ApiError where
  "timeoutError =
     \<lparr>err_code = Some ''ECONNABORTED'', err_message = Some ''timeout of 240000ms exceeded'',
      err_status = None, err_detail = None\<rparr>"

definition bothExternal :: EpisodeSubtitles where
  "bothExternal = listingOf [externalTrack ''/tv/en.srt'' ''en'', externalTrack ''/tv/ja.srt'' ''ja''] []"

definition sampleWorld :: "nat \<Rightarrow> TaskWorld" where
  "sampleWorld i =
     (if i = 0
      then \<lparr>startTime = 0, listing = Inr bothExternal,
            creation = (\<lambda>request. Inr (createdFile ''/tv/301.en.ja.dual.ass'')), endTime = 20000\<rparr>
      else if i = 1
      then \<lparr>startTime = 20000, listing = Inr (listingOf [] [embeddedTrack ''ja'' 3]),
            creation = (\<lambda>request. Inr (createdFile ''/tv/303.en.ja.dual.ass'')), endTime = 21000\<rparr>
      else \<lparr>startTime = 21000,
            listing = Inr (listingOf [externalTrack ''/tv/305.en.srt'' ''en''] [embeddedTrack ''ja'' 4]),
            creation = (\<lambda>request. Inl timeoutError), endTime = 261000\<rparr>)"

definition steadyWorld :: "int list \<Rightarrow> nat \<Rightarrow> TaskWorld" where
  "steadyWorld durations i =
     \<lparr>startTime = 0, listing = Inr bothExternal,
      creation = (\<lambda>request. Inr (createdFile ''/tv/out.ass'')),
      endTime = (if i < length durations then durations ! i else 0)\<rparr>"

subsection \<open>A season of 24 episodes\<close>

text \<open>
  English in all 24 episodes (external in 20, embedded in 4), Japanese in 22 of them
  (external in 18, embedded in 4), and an existing English and Japanese dual subtitle
  in 2 of those 22, one stored in each order.
\<close>

definition scenarioEpisode :: "nat \<Rightarrow> entry" where
  "scenarioEpisode n =
     (\<lparr>ep_id = show_nat (1000 + n), season_episode = ''S01E'' @ show_nat (n + 1),
       title = ''Episode''\<rparr>,
      Some (listingOf
        ((if n < 20 then [externalTrack (''/tv/'' @ show_nat n @ ''.en.srt'') ''en''] else [])
         @ (if n < 18 then [externalTrack (''/tv/'' @ show_nat n @ ''.ja.srt'') ''ja''] else [])
         @ (if n = 0 then [dualTrack ''/tv/0.en.ja.dual.ass'' ''en'' ''ja'']
            else if n = 1 then [dualTrack ''/tv/1.ja.en.dual.ass'' ''ja'' ''en'']
            else []))
        ((if 20 \<le> n then [embeddedTrack ''en'' 2] else [])
         @ (if 18 \<le> n \<and> n < 22 then [embeddedTrack ''ja'' 3] else []))))"

definition scenario :: "entry list" where
  "scenario = map scenarioEpisode [0..<24]"

section \<open>Rounding to a double, evaluated\<close>

text \<open>The floor and the ceiling of a quotient of numerals, by which the rounding of a
  given rational is computed.\<close>

lemma floor_rat_numeral:
  "\<lfloor>numeral a / numeral b :: rat\<rfloor> = numeral a div numeral b"
  "\<lfloor>- (numeral a / numeral b) :: rat\<rfloor> = - numeral a div numeral b"
  using floor_divide_of_int_eq [of "numeral a" "numeral b", where ?'a = rat]
        floor_divide_of_int_eq [of "- numeral a" "numeral b", where ?'a = rat]
  by simp_all

lemma ceiling_rat_numeral:
  "\<lceil>numeral a / numeral b :: rat\<rceil> = - (- numeral a div numeral b)"
  unfolding ceiling_def using floor_rat_numeral(2) [of a b] by simp

lemmas to_double_eval =
  to_double_def floor_log2_def scale2_def round_half_even_def Let_def
  compute_floorlog floor_rat_numeral ceiling_rat_numeral

text \<open>One tenth is not a double; the nearest one is \<open>3602879701896397 / 2\<^sup>5\<^sup>5\<close>. An integer
  of milliseconds and a half are doubles.\<close>

lemma to_double_samples:
  "to_double (1 / 10) = 3602879701896397 / 36028797018963968"
  "to_double (- (1 / 10)) = - (3602879701896397 / 36028797018963968)"
  "to_double 45000 = 45000"
  "to_double (25 / 2) = 25 / 2"
  "to_double (3100 / 3) = 4544648061474133 / 4398046511104"
  by (simp_all add: to_double_eval)

section \<open>The availability analysis, characterised\<close>

lemma registerExternal_step:
  "registerExternal e info (m, seen) sub =
     (if is_dual_subtitle sub then (m, seen)
      else if langCodeOf (language_code sub) \<notin> seen
           then (m(langCodeOf (language_code sub) \<mapsto>
                     addExternal e info (getLangData m (langCodeOf (language_code sub)))),
                 insert (langCodeOf (language_code sub)) seen)
           else (m(langCodeOf (language_code sub) \<mapsto> getLangData m (langCodeOf (language_code sub))),
                 seen))"
  by (simp add: registerExternal_def addExternal_def Let_def)

lemma foldl_registerExternal:
  "foldl (registerExternal e info) (m, seen) xs =
     ((\<lambda>L. if L \<in> set (nonDualCodes xs)
           then Some (if L \<in> seen then getLangData m L else addExternal e info (getLangData m L))
           else m L),
      seen \<union> set (nonDualCodes xs))"
proof (induction xs arbitrary: m seen)
  case Nil
  then show ?case by (simp add: nonDualCodes_def)
next
  case (Cons x xs)
  show ?case
    unfolding foldl_Cons registerExternal_step
    by (auto simp: Cons.IH nonDualCodes_def fun_eq_iff getLangData_def)
qed

lemma registerEmbedded_step:
  "registerEmbedded e info (m, seen) sub =
     (if langCodeOf (languageCode sub) \<notin> seen
      then (m(langCodeOf (languageCode sub) \<mapsto>
                addEmbedded e info (getLangData m (langCodeOf (languageCode sub)))),
            insert (langCodeOf (languageCode sub)) seen)
      else (m(langCodeOf (languageCode sub) \<mapsto>
                markEmbedded e (getLangData m (langCodeOf (languageCode sub)))),
            seen))"
  by (simp add: registerEmbedded_def addEmbedded_def markEmbedded_def Let_def)

lemma markEmbedded_idem [simp]:
  "markEmbedded e (markEmbedded e d) = markEmbedded e d"
  "markEmbedded e (addEmbedded e info d) = addEmbedded e info d"
  by (simp_all add: markEmbedded_def addEmbedded_def)

lemma foldl_registerEmbedded:
  "foldl (registerEmbedded e info) (m, seen) es =
     ((\<lambda>L. if L \<in> set (allCodes es)
           then Some (if L \<in> seen then markEmbedded e (getLangData m L) else addEmbedded e info (getLangData m L))
           else m L),
      seen \<union> set (allCodes es))"
proof (induction es arbitrary: m seen)
  case Nil
  then show ?case by (simp add: allCodes_def)
next
  case (Cons x xs)
  show ?case
    unfolding foldl_Cons registerEmbedded_step
    by (auto simp: Cons.IH allCodes_def fun_eq_iff getLangData_def)
qed


lemma processEpisode_None: "processEpisode m (e, None) = m"
  by (simp add: processEpisode_def)

lemma processEpisode_Some:
  "processEpisode m (e, Some s) =
     (\<lambda>L. if L \<in> set (embeddedCodes s)
          then Some (if L \<in> set (externalCodes s)
                     then markEmbedded e (addExternal e (episodeInfo e s) (getLangData m L))
                     else addEmbedded e (episodeInfo e s) (getLangData m L))
          else if L \<in> set (externalCodes s)
               then Some (addExternal e (episodeInfo e s) (getLangData m L))
               else m L)"
proof -
  have ext: "set (externalCodes s) = (case external_subtitles s of None \<Rightarrow> {} | Some xs \<Rightarrow> set (nonDualCodes xs))"
    by (simp add: externalCodes_def nonDualCodes_def split: option.splits)
  have emb: "set (embeddedCodes s) = (case embedded_subtitles s of None \<Rightarrow> {} | Some es \<Rightarrow> set (allCodes es))"
    by (simp add: embeddedCodes_def allCodes_def split: option.splits)
  show ?thesis
    unfolding ext emb processEpisode_def
    by (auto simp: Let_def foldl_registerExternal foldl_registerEmbedded fun_eq_iff getLangData_def
             split: option.splits)
qed

lemma languageMapOf_snoc:
  "languageMapOf (episodes @ [entry]) = processEpisode (languageMapOf episodes) entry"
  by (simp add: languageMapOf_def)

lemma langDataAfter_empty:
  "\<not> list_ex (hasLanguage L) episodes \<Longrightarrow> langDataAfter episodes L = newLangData L"
proof -
  assume a: "\<not> list_ex (hasLanguage L) episodes"
  then have "filter (hasLanguage L) episodes = []"
    by (auto simp: list_ex_iff filter_empty_conv)
  moreover from a have "filter (hasExternal L) episodes = []"
    by (auto simp: list_ex_iff filter_empty_conv hasLanguage_def)
  moreover from a have "filter (hasEmbedded L) episodes = []"
    by (auto simp: list_ex_iff filter_empty_conv hasLanguage_def)
  ultimately show ?thesis
    by (simp add: langDataAfter_def newLangData_def idsWhere_def)
qed

lemma langDataAfter_snoc:
  "langDataAfter (episodes @ [entry]) L =
     (let d = langDataAfter episodes L;
          d1 = (if hasLanguage L entry
                then d\<lparr>ld_episode_details := ld_episode_details d @ [entryInfo entry],
                       episode_ids := insert (ep_id (fst entry)) (episode_ids d)\<rparr> else d);
          d2 = (if hasExternal L entry
                then d1\<lparr>external_episode_ids := insert (ep_id (fst entry)) (external_episode_ids d1)\<rparr> else d1)
      in if hasEmbedded L entry
         then d2\<lparr>embedded_episode_ids := insert (ep_id (fst entry)) (embedded_episode_ids d2)\<rparr> else d2)"
  by (simp add: langDataAfter_def idsWhere_def Let_def)

lemma languageMapOf_eq:
  "languageMapOf episodes L =
     (if list_ex (hasLanguage L) episodes then Some (langDataAfter episodes L) else None)"
proof (induction episodes rule: rev_induct)
  case Nil
  then show ?case by (simp add: languageMapOf_def)
next
  case (snoc entry episodes)
  have get: "getLangData (languageMapOf episodes) L = langDataAfter episodes L"
    using snoc.IH by (simp add: getLangData_def langDataAfter_empty)
  obtain e so where entry: "entry = (e, so)" by (cases entry)
  show ?case
  proof (cases so)
    case None
    then have no: "\<not> hasLanguage L entry" "\<not> hasExternal L entry" "\<not> hasEmbedded L entry"
      by (simp_all add: entry hasLanguage_def hasExternal_def hasEmbedded_def)
    have "processEpisode (languageMapOf episodes) entry = languageMapOf episodes"
      by (simp add: entry None processEpisode_None)
    then show ?thesis
      using snoc.IH no
      by (simp add: languageMapOf_snoc langDataAfter_snoc Let_def)
  next
    case (Some s)
    have h: "hasExternal L entry = (L \<in> set (externalCodes s))"
            "hasEmbedded L entry = (L \<in> set (embeddedCodes s))"
            "hasLanguage L entry = (L \<in> set (externalCodes s) \<or> L \<in> set (embeddedCodes s))"
            "entryInfo entry = episodeInfo e s" "fst entry = e"
      by (simp_all add: entry Some hasLanguage_def hasExternal_def hasEmbedded_def entryInfo_def)
    have "processEpisode (languageMapOf episodes) entry L =
            (if L \<in> set (embeddedCodes s)
             then Some (if L \<in> set (externalCodes s)
                        then markEmbedded e (addExternal e (episodeInfo e s) (langDataAfter episodes L))
                        else addEmbedded e (episodeInfo e s) (langDataAfter episodes L))
             else if L \<in> set (externalCodes s)
                  then Some (addExternal e (episodeInfo e s) (langDataAfter episodes L))
                  else languageMapOf episodes L)"
      by (simp add: entry Some processEpisode_Some get)
    then show ?thesis
      unfolding languageMapOf_snoc
      by (simp add: langDataAfter_snoc h Let_def snoc.IH
                    addExternal_def addEmbedded_def markEmbedded_def)
  qed
qed

lemma toAvailability_after:
  "toAvailability (langDataAfter episodes L) =
     \<lparr>name = getLanguageName L,
      episodes_available = card (idsWhere (hasLanguage L) episodes),
      episodes_with_external = card (idsWhere (hasExternal L) episodes),
      episodes_with_embedded = card (idsWhere (hasEmbedded L) episodes),
      episode_details = map entryInfo (filter (hasLanguage L) episodes)\<rparr>"
  by (simp add: toAvailability_def langDataAfter_def)

lemma own_availability_eq:
  "language_availability (getSubtitleAnalysis episodes) L =
     (if L \<noteq> ''__proto__'' \<and> list_ex (hasLanguage L) episodes
      then Some (toAvailability (langDataAfter episodes L)) else None)"
  by (simp add: getSubtitleAnalysis_def languageMapOf_eq)

lemma availability_prototype_eq:
  "availability_prototype (getSubtitleAnalysis episodes) =
     (if list_ex (hasLanguage ''__proto__'') episodes
      then Some (toAvailability (langDataAfter episodes ''__proto__'')) else None)"
  by (simp add: getSubtitleAnalysis_def languageMapOf_eq)

lemma availability_get_entry:
  assumes "list_ex (hasLanguage L) episodes"
  shows "availability_get (getSubtitleAnalysis episodes) L = Entry (toAvailability (langDataAfter episodes L))"
proof (cases "L = ''__proto__''")
  case True
  with assms show ?thesis
    by (simp add: availability_get_def own_availability_eq availability_prototype_eq)
next
  case False
  with assms show ?thesis
    by (simp add: availability_get_def own_availability_eq)
qed

lemma availability_get_no_entry:
  assumes "\<not> list_ex (hasLanguage L) episodes"
  shows "entryOf (availability_get (getSubtitleAnalysis episodes) L) = None"
proof (cases "availability_prototype (getSubtitleAnalysis episodes)")
  case None
  with assms show ?thesis
    by (simp add: availability_get_def own_availability_eq entryOf_def)
next
  case (Some proto)
  then have "list_ex (hasLanguage ''__proto__'') episodes"
    by (simp add: availability_prototype_eq split: if_splits)
  with assms have "L \<noteq> ''__proto__''"
    by auto
  with assms Some show ?thesis
    by (simp add: availability_get_def own_availability_eq entryOf_def split: name_value.splits)
qed

lemma availability_get_EntryD:
  assumes "availability_get (getSubtitleAnalysis episodes) L = Entry P"
  shows "list_ex (hasLanguage L) episodes" and "P = toAvailability (langDataAfter episodes L)"
proof -
  show ex: "list_ex (hasLanguage L) episodes"
  proof (rule ccontr)
    assume "\<not> list_ex (hasLanguage L) episodes"
    then have "entryOf (availability_get (getSubtitleAnalysis episodes) L) = None"
      by (rule availability_get_no_entry)
    with assms show False
      by (simp add: entryOf_def)
  qed
  from availability_get_entry [OF ex] assms show "P = toAvailability (langDataAfter episodes L)"
    by simp
qed

lemma entry_read_eq:
  "entryOf (availability_get (getSubtitleAnalysis episodes) L) =
     (if list_ex (hasLanguage L) episodes
      then Some (toAvailability (langDataAfter episodes L)) else None)"
proof (cases "list_ex (hasLanguage L) episodes")
  case True
  then show ?thesis
    by (simp add: availability_get_entry entryOf_def)
next
  case False
  then show ?thesis
    by (simp add: availability_get_no_entry)
qed

lemma dropDualTracks_has [simp]:
  "hasExternal L (dropDualTracks entry) = hasExternal L entry"
  "hasEmbedded L (dropDualTracks entry) = hasEmbedded L entry"
  "hasLanguage L (dropDualTracks entry) = hasLanguage L entry"
  "ep_id (fst (dropDualTracks entry)) = ep_id (fst entry)"
proof -
  have codes: "externalCodes (s\<lparr>external_subtitles :=
                  map_option (filter (\<lambda>sub. \<not> is_dual_subtitle sub)) (external_subtitles s)\<rparr>)
               = externalCodes s"
              "embeddedCodes (s\<lparr>external_subtitles :=
                  map_option (filter (\<lambda>sub. \<not> is_dual_subtitle sub)) (external_subtitles s)\<rparr>)
               = embeddedCodes s" for s
    by (cases "external_subtitles s"; simp add: externalCodes_def embeddedCodes_def)+
  show ext: "hasExternal L (dropDualTracks entry) = hasExternal L entry"
    by (cases "snd entry") (simp_all add: dropDualTracks_def hasExternal_def codes)
  show emb: "hasEmbedded L (dropDualTracks entry) = hasEmbedded L entry"
    by (cases "snd entry") (simp_all add: dropDualTracks_def hasEmbedded_def codes)
  show "hasLanguage L (dropDualTracks entry) = hasLanguage L entry"
    by (simp add: hasLanguage_def ext emb)
  show "ep_id (fst (dropDualTracks entry)) = ep_id (fst entry)"
    by (simp add: dropDualTracks_def)
qed

lemma idsWhere_dropDualTracks:
  "idsWhere P (map dropDualTracks episodes) = idsWhere (\<lambda>entry. P (dropDualTracks entry)) episodes"
  by (simp add: idsWhere_def filter_map comp_def)

lemma counts_dropDualTracks:
  "map_option countsOf (entryOf (availability_get (getSubtitleAnalysis (map dropDualTracks episodes)) L))
   = map_option countsOf (entryOf (availability_get (getSubtitleAnalysis episodes) L))"
proof -
  have ex: "list_ex (hasLanguage L) (map dropDualTracks episodes) = list_ex (hasLanguage L) episodes"
    by (simp add: list_ex_iff)
  show ?thesis
    by (simp add: entry_read_eq toAvailability_after ex countsOf_def idsWhere_dropDualTracks)
qed

lemma entryInfo_recorded:
  "\<forall>episode subtitles. entryInfo (episode, Some subtitles) =
     \<lparr>episode_id = ep_id episode,
      ei_season_episode = season_episode episode,
      ei_title = title episode,
      has_external = (case external_subtitles subtitles of None \<Rightarrow> False | Some xs \<Rightarrow> xs \<noteq> []),
      has_embedded = (case embedded_subtitles subtitles of None \<Rightarrow> False | Some es \<Rightarrow> es \<noteq> []),
      existing_dual_subtitles =
        Some (case external_subtitles subtitles of None \<Rightarrow> [] | Some xs \<Rightarrow> filter is_dual_subtitle xs),
      embedded_streams =
        (case embedded_subtitles subtitles of
           None \<Rightarrow> []
         | Some es \<Rightarrow>
             map (\<lambda>sub. \<lparr>es_stream_index = stream_index sub,
                          es_language_code =
                            (case languageCode sub of
                               None \<Rightarrow> ''unknown''
                             | Some c \<Rightarrow> if c = [] then ''unknown'' else c),
                          es_display_name = display_name sub\<rparr>) es)\<rparr>"
proof -
  have "embeddedStream =
          (\<lambda>sub. \<lparr>es_stream_index = stream_index sub,
                   es_language_code =
                     (case languageCode sub of
                        None \<Rightarrow> ''unknown''
                      | Some c \<Rightarrow> if c = [] then ''unknown'' else c),
                   es_display_name = display_name sub\<rparr>)"
    by (simp add: fun_eq_iff embeddedStream_def langCodeOf_def)
  then have "entryInfo (episode, Some subtitles) =
     \<lparr>episode_id = ep_id episode,
      ei_season_episode = season_episode episode,
      ei_title = title episode,
      has_external = (case external_subtitles subtitles of None \<Rightarrow> False | Some xs \<Rightarrow> xs \<noteq> []),
      has_embedded = (case embedded_subtitles subtitles of None \<Rightarrow> False | Some es \<Rightarrow> es \<noteq> []),
      existing_dual_subtitles =
        Some (case external_subtitles subtitles of None \<Rightarrow> [] | Some xs \<Rightarrow> filter is_dual_subtitle xs),
      embedded_streams =
        (case embedded_subtitles subtitles of
           None \<Rightarrow> []
         | Some es \<Rightarrow>
             map (\<lambda>sub. \<lparr>es_stream_index = stream_index sub,
                          es_language_code =
                            (case languageCode sub of
                               None \<Rightarrow> ''unknown''
                             | Some c \<Rightarrow> if c = [] then ''unknown'' else c),
                          es_display_name = display_name sub\<rparr>) es)\<rparr>" for episode subtitles
    by (cases "embedded_subtitles subtitles") (simp_all add: entryInfo_def episodeInfo_def)
  then show ?thesis
    by (intro allI)
qed

lemma langCodeOf_eq:
  "langCodeOf c = L \<longleftrightarrow> (c = Some L \<and> L \<noteq> [] \<or> L = ''unknown'' \<and> (c = None \<or> c = Some []))"
  by (cases c) (auto simp: langCodeOf_def)

lemma hasExternal_tracks:
  "\<forall>entry. hasExternal L entry \<longleftrightarrow>
     (\<exists>subtitles xs sub. snd entry = Some subtitles \<and> external_subtitles subtitles = Some xs
        \<and> sub \<in> set xs \<and> \<not> is_dual_subtitle sub
        \<and> (language_code sub = Some L \<and> L \<noteq> []
             \<or> L = ''unknown'' \<and> (language_code sub = None \<or> language_code sub = Some [])))"
proof
  fix entry
  show "hasExternal L entry \<longleftrightarrow>
     (\<exists>subtitles xs sub. snd entry = Some subtitles \<and> external_subtitles subtitles = Some xs
        \<and> sub \<in> set xs \<and> \<not> is_dual_subtitle sub
        \<and> (language_code sub = Some L \<and> L \<noteq> []
             \<or> L = ''unknown'' \<and> (language_code sub = None \<or> language_code sub = Some [])))"
  proof (cases "snd entry")
  case None
  then show ?thesis by (simp add: hasExternal_def)
next
  case (Some subtitles)
  show ?thesis
  proof (cases "external_subtitles subtitles")
    case None
    with Some show ?thesis by (simp add: hasExternal_def externalCodes_def)
  next
    case xs: (Some xs)
    have "hasExternal L entry
          \<longleftrightarrow> (\<exists>sub. sub \<in> set xs \<and> \<not> is_dual_subtitle sub \<and> langCodeOf (language_code sub) = L)"
      using Some xs by (auto simp: hasExternal_def externalCodes_def)
    then show ?thesis
      unfolding langCodeOf_eq using Some xs by simp
  qed
  qed
qed

lemma hasEmbedded_tracks:
  "\<forall>entry. hasEmbedded L entry \<longleftrightarrow>
     (\<exists>subtitles es sub. snd entry = Some subtitles \<and> embedded_subtitles subtitles = Some es
        \<and> sub \<in> set es
        \<and> (languageCode sub = Some L \<and> L \<noteq> []
             \<or> L = ''unknown'' \<and> (languageCode sub = None \<or> languageCode sub = Some [])))"
proof
  fix entry
  show "hasEmbedded L entry \<longleftrightarrow>
     (\<exists>subtitles es sub. snd entry = Some subtitles \<and> embedded_subtitles subtitles = Some es
        \<and> sub \<in> set es
        \<and> (languageCode sub = Some L \<and> L \<noteq> []
             \<or> L = ''unknown'' \<and> (languageCode sub = None \<or> languageCode sub = Some [])))"
  proof (cases "snd entry")
  case None
  then show ?thesis by (simp add: hasEmbedded_def)
next
  case (Some subtitles)
  show ?thesis
  proof (cases "embedded_subtitles subtitles")
    case None
    with Some show ?thesis by (simp add: hasEmbedded_def embeddedCodes_def)
  next
    case es: (Some es)
    have "hasEmbedded L entry
          \<longleftrightarrow> (\<exists>sub. sub \<in> set es \<and> langCodeOf (languageCode sub) = L)"
      using Some es by (auto simp: hasEmbedded_def embeddedCodes_def)
    then show ?thesis
      unfolding langCodeOf_eq using Some es by simp
  qed
  qed
qed

text \<open>
  Claim C4. The availability analysis counts each episode at most once per language
  code. Reading a language from the availability object yields an entry exactly when some
  episode offers the language, and then \<open>episodes_available\<close> is the number of distinct
  episode ids with at least one external track not flagged as dual, or at least one
  embedded track, of that code; \<open>episodes_with_external\<close> and \<open>episodes_with_embedded\<close>
  are the numbers of distinct ids with such an external track and with such an embedded
  track, so an episode counted through an external track is counted in the embedded
  breakdown as well where it has an embedded track of the code, and once in
  \<open>episodes_available\<close>; \<open>episode_details\<close> holds one record for each such episode, which
  lists every embedded stream of the episode with its index, its code and its display
  name. The counts do not change when the tracks flagged as dual subtitles are removed
  from the listings. A track has the code \<open>L\<close> when its code field is \<open>L\<close> and not empty, or
  when \<open>L\<close> is \<open>unknown\<close> and the field is missing or empty: a track without a code falls
  under \<open>unknown\<close>, and every other track under the code it carries, whether the table of
  language names knows that code or not. This holds for every list of listings and every
  code, the code \<open>__proto__\<close> included.
\<close>

theorem availability_counts_each_episode_once:
  "entryOf (availability_get (getSubtitleAnalysis episodes) L) =
     (if list_ex (hasLanguage L) episodes
      then Some \<lparr>name = getLanguageName L,
                 episodes_available = card (idsWhere (hasLanguage L) episodes),
                 episodes_with_external = card (idsWhere (hasExternal L) episodes),
                 episodes_with_embedded = card (idsWhere (hasEmbedded L) episodes),
                 episode_details = map entryInfo (filter (hasLanguage L) episodes)\<rparr>
      else None)
   \<and> map_option countsOf (entryOf (availability_get (getSubtitleAnalysis (map dropDualTracks episodes)) L))
     = map_option countsOf (entryOf (availability_get (getSubtitleAnalysis episodes) L))
   \<and> (\<forall>entry. hasLanguage L entry \<longleftrightarrow> hasExternal L entry \<or> hasEmbedded L entry)
   \<and> (\<forall>entry. hasExternal L entry \<longleftrightarrow>
         (\<exists>subtitles xs sub. snd entry = Some subtitles \<and> external_subtitles subtitles = Some xs
            \<and> sub \<in> set xs \<and> \<not> is_dual_subtitle sub
            \<and> (language_code sub = Some L \<and> L \<noteq> []
                 \<or> L = ''unknown'' \<and> (language_code sub = None \<or> language_code sub = Some []))))
   \<and> (\<forall>entry. hasEmbedded L entry \<longleftrightarrow>
         (\<exists>subtitles es sub. snd entry = Some subtitles \<and> embedded_subtitles subtitles = Some es
            \<and> sub \<in> set es
            \<and> (languageCode sub = Some L \<and> L \<noteq> []
                 \<or> L = ''unknown'' \<and> (languageCode sub = None \<or> languageCode sub = Some []))))
   \<and> (\<forall>episode subtitles.
         entryInfo (episode, Some subtitles) =
           \<lparr>episode_id = ep_id episode,
            ei_season_episode = season_episode episode,
            ei_title = title episode,
            has_external = (case external_subtitles subtitles of None \<Rightarrow> False | Some xs \<Rightarrow> xs \<noteq> []),
            has_embedded = (case embedded_subtitles subtitles of None \<Rightarrow> False | Some es \<Rightarrow> es \<noteq> []),
            existing_dual_subtitles =
              Some (case external_subtitles subtitles of None \<Rightarrow> [] | Some xs \<Rightarrow> filter is_dual_subtitle xs),
            embedded_streams =
              (case embedded_subtitles subtitles of
                 None \<Rightarrow> []
               | Some es \<Rightarrow>
                   map (\<lambda>sub. \<lparr>es_stream_index = stream_index sub,
                                es_language_code =
                                  (case languageCode sub of
                                     None \<Rightarrow> ''unknown''
                                   | Some c \<Rightarrow> if c = [] then ''unknown'' else c),
                                es_display_name = display_name sub\<rparr>) es)\<rparr>)
   \<and> langCodeOf None = ''unknown'' \<and> langCodeOf (Some []) = ''unknown''
   \<and> (\<forall>c. c \<noteq> [] \<longrightarrow> langCodeOf (Some c) = c)"
proof -
  have a: "entryOf (availability_get (getSubtitleAnalysis episodes) L) =
     (if list_ex (hasLanguage L) episodes
      then Some \<lparr>name = getLanguageName L,
                 episodes_available = card (idsWhere (hasLanguage L) episodes),
                 episodes_with_external = card (idsWhere (hasExternal L) episodes),
                 episodes_with_embedded = card (idsWhere (hasEmbedded L) episodes),
                 episode_details = map entryInfo (filter (hasLanguage L) episodes)\<rparr>
      else None)"
    by (simp add: entry_read_eq toAvailability_after)
  have b: "\<forall>entry. hasLanguage L entry \<longleftrightarrow> hasExternal L entry \<or> hasEmbedded L entry"
    by (simp add: hasLanguage_def)
  have c: "langCodeOf None = ''unknown''" "langCodeOf (Some []) = ''unknown''"
          "\<forall>c. c \<noteq> [] \<longrightarrow> langCodeOf (Some c) = c"
    by (simp_all add: langCodeOf_def)
  show ?thesis
    by (rule conjI [OF a conjI [OF counts_dropDualTracks conjI [OF b conjI [OF hasExternal_tracks
          conjI [OF hasEmbedded_tracks conjI [OF entryInfo_recorded
          conjI [OF c(1) conjI [OF c(2) c(3)]]]]]]]])
qed

theorem availability_counts_each_episode_once_witness:
  "list_ex (hasLanguage ''en'') mixedShow
   \<and> map_option (\<lambda>entry. (name entry, countsOf entry, map episode_id (episode_details entry)))
        (entryOf (availability_get (getSubtitleAnalysis mixedShow) ''en''))
       = Some (Text ''English'', (2, 2, 1), [''401'', ''403''])
   \<and> hasExternal ''en'' (mixedShow ! 0) \<and> hasEmbedded ''en'' (mixedShow ! 0)
   \<and> embedded_streams (entryInfo (mixedShow ! 0))
       = [\<lparr>es_stream_index = 2, es_language_code = ''en'', es_display_name = ''en''\<rparr>,
          \<lparr>es_stream_index = 3, es_language_code = ''unknown'', es_display_name = ''Commentary''\<rparr>]
   \<and> has_embedded (entryInfo (mixedShow ! 0))
   \<and> ''xx'' \<noteq> [] \<and> langCodeOf (Some ''xx'') = ''xx''"
proof -
  note t = availability_counts_each_episode_once [of mixedShow "''en''"]
  have ex: "list_ex (hasLanguage ''en'') mixedShow" by code_simp
  have ids: "card (idsWhere (hasLanguage ''en'') mixedShow) = 2"
            "card (idsWhere (hasExternal ''en'') mixedShow) = 2"
            "card (idsWhere (hasEmbedded ''en'') mixedShow) = 1"
            "map (\<lambda>entry. episode_id (entryInfo entry)) (filter (hasLanguage ''en'') mixedShow)
               = [''401'', ''403'']"
            "getLanguageName ''en'' = Text ''English''"
    by code_simp+
  from t ex have "entryOf (availability_get (getSubtitleAnalysis mixedShow) ''en'')
      = Some \<lparr>name = getLanguageName ''en'',
              episodes_available = card (idsWhere (hasLanguage ''en'') mixedShow),
              episodes_with_external = card (idsWhere (hasExternal ''en'') mixedShow),
              episodes_with_embedded = card (idsWhere (hasEmbedded ''en'') mixedShow),
              episode_details = map entryInfo (filter (hasLanguage ''en'') mixedShow)\<rparr>"
    by simp
  then have a: "map_option (\<lambda>entry. (name entry, countsOf entry, map episode_id (episode_details entry)))
        (entryOf (availability_get (getSubtitleAnalysis mixedShow) ''en''))
       = Some (Text ''English'', (2, 2, 1), [''401'', ''403''])"
    using ids by (simp add: countsOf_def comp_def)
  have h: "hasExternal ''en'' (mixedShow ! 0)" "hasEmbedded ''en'' (mixedShow ! 0)"
    by code_simp+
  have e: "mixedShow ! 0 = (episodeNamed ''401'', Some (listingOf
             [externalTrack ''/tv/401.en.srt'' ''en'', externalTrack ''/tv/401.en.forced.srt'' ''en'']
             [embeddedTrack ''en'' 2,
              \<lparr>languageCode = None, stream_index = 3, display_name = ''Commentary''\<rparr>]))"
    by (simp add: mixedShow_def)
  from t have "entryInfo (mixedShow ! 0) = \<lparr>episode_id = ep_id (episodeNamed ''401''),
            ei_season_episode = season_episode (episodeNamed ''401''),
            ei_title = title (episodeNamed ''401''),
            has_external = True, has_embedded = True,
            existing_dual_subtitles = Some [],
            embedded_streams =
              [\<lparr>es_stream_index = 2, es_language_code = ''en'', es_display_name = ''en''\<rparr>,
               \<lparr>es_stream_index = 3, es_language_code = ''unknown'', es_display_name = ''Commentary''\<rparr>]\<rparr>"
    unfolding e by (simp add: listingOf_def externalTrack_def embeddedTrack_def)
  then have s: "embedded_streams (entryInfo (mixedShow ! 0))
       = [\<lparr>es_stream_index = 2, es_language_code = ''en'', es_display_name = ''en''\<rparr>,
          \<lparr>es_stream_index = 3, es_language_code = ''unknown'', es_display_name = ''Commentary''\<rparr>]"
    and m: "has_embedded (entryInfo (mixedShow ! 0))"
    by simp_all
  from t have x: "langCodeOf (Some ''xx'') = ''xx''"
    by simp
  from ex a h s m x show ?thesis
    by simp
qed

text \<open>
  Reads of the availability object of \<open>mixedShow\<close>. The track without a code and the one
  with an empty code fall under \<open>unknown\<close>; the code \<open>xx\<close>, which the table of names does
  not know, has an entry of its own; Japanese, which only a track flagged as a dual
  subtitle carries, has none. The entry of the code \<open>__proto__\<close> is the object's
  prototype: the key \<open>__proto__\<close> yields it, and the names of its fields yield their
  values, of which the count of 0 is falsy.
\<close>

lemma mixedShow_reads:
  "map_option countsOf (entryOf (availability_get (getSubtitleAnalysis mixedShow) ''unknown'')) = Some (2, 1, 1)"
  "map_option countsOf (entryOf (availability_get (getSubtitleAnalysis mixedShow) ''xx'')) = Some (1, 1, 0)"
  "availability_get (getSubtitleAnalysis mixedShow) ''ja'' = Falsy"
  "map_option countsOf (entryOf (availability_get (getSubtitleAnalysis mixedShow) ''__proto__'')) = Some (1, 0, 1)"
  "language_availability (getSubtitleAnalysis mixedShow) ''__proto__'' = None"
  "availability_get (getSubtitleAnalysis mixedShow) ''episodes_available'' = Truthy"
  "availability_get (getSubtitleAnalysis mixedShow) ''episodes_with_external'' = Falsy"
  "availability_get (getSubtitleAnalysis mixedShow) ''episode_details'' = Truthy"
  "availability_get (getSubtitleAnalysis mixedShow) ''toString'' = Truthy"
  "availability_get (getSubtitleAnalysis sampleShow) ''__proto__'' = Truthy"
  "availability_get (getSubtitleAnalysis sampleShow) ''episodes_available'' = Falsy"
  by code_simp+

section \<open>Language names and filename detection\<close>

text \<open>
  Claim C9. \<open>getLanguageName\<close> maps \<open>hi\<close> to "Hearing Impaired", and a code absent from
  its table to the code in upper case. The table is an object literal, and the code
  \<open>constructor\<close> is absent from it; the lookup nevertheless finds the member of that name
  which the literal inherits, and the function returns it rather than \<open>CONSTRUCTOR\<close>.
\<close>

theorem getLanguageName_inherited_member:
  "languages ''constructor'' = None
   \<and> getLanguageName ''constructor'' = PrototypeMember ''constructor''
   \<and> getLanguageName ''constructor'' \<noteq> Text (toUpperCase ''constructor'')"
  by (simp add: getLanguageName_def js_get_def languages_def object_prototype_members_def)

text \<open>What does hold: \<open>hi\<close> is "Hearing Impaired", and every other code that is neither
  in the table nor the name of an inherited member comes back in upper case.\<close>

lemma getLanguageName_upper:
  "getLanguageName ''hi'' = Text ''Hearing Impaired''
   \<and> (code \<noteq> ''hi'' \<and> languages code = None \<and> code \<notin> set object_prototype_members
        \<longrightarrow> getLanguageName code = Text (toUpperCase code))"
  by (simp add: getLanguageName_def js_get_def)

lemma first_match_None_iff:
  "first_match ps filename = None \<longleftrightarrow> (\<forall>p \<in> set ps. regex_match p filename = None)"
  by (induction ps) (auto split: option.splits)

lemma stacked_codes:
  assumes "atom_matches Letter c" "atom_matches Letter d" "toLowerCase e \<in> set extensions"
  shows "extractLanguageFromFilename (pre @ [CHR ''.'', a, b, CHR ''.'', c, d, CHR ''.''] @ e)
         = Some (toLowerCase [c, d])"
proof -
  have le: "length e = 3"
    using assms(3) by (auto simp: extensions_def toLowerCase_def)
  show ?thesis
    using assms le
    by (simp add: extractLanguageFromFilename_def patterns_def regex_match_def Let_def)
qed

text \<open>
  Claim C10. \<open>extractLanguageFromFilename\<close> returns null exactly when none of its
  patterns matches the filename; and for a filename that ends in two stacked two-letter
  codes before a subtitle extension, it returns the code nearest the extension, in
  lower case: for \<open>show.zh.hi.srt\<close> that is \<open>hi\<close>.
\<close>

theorem extractLanguageFromFilename_last_suffix:
  "(extractLanguageFromFilename filename = None
      \<longleftrightarrow> (\<forall>p \<in> set patterns. regex_match p filename = None))
   \<and> (atom_matches Letter a \<and> atom_matches Letter b \<and> atom_matches Letter c
        \<and> atom_matches Letter d \<and> toLowerCase e \<in> set extensions
      \<longrightarrow> extractLanguageFromFilename (pre @ [CHR ''.'', a, b, CHR ''.'', c, d, CHR ''.''] @ e)
          = Some (toLowerCase [c, d]))
   \<and> extractLanguageFromFilename ''show.zh.hi.srt'' = Some ''hi''"
proof (intro conjI impI)
  show "extractLanguageFromFilename filename = None
          \<longleftrightarrow> (\<forall>p \<in> set patterns. regex_match p filename = None)"
    unfolding extractLanguageFromFilename_def by (rule first_match_None_iff)
next
  assume "atom_matches Letter a \<and> atom_matches Letter b \<and> atom_matches Letter c
            \<and> atom_matches Letter d \<and> toLowerCase e \<in> set extensions"
  then show "extractLanguageFromFilename (pre @ [CHR ''.'', a, b, CHR ''.'', c, d, CHR ''.''] @ e)
               = Some (toLowerCase [c, d])"
    by (intro stacked_codes) simp_all
next
  show "extractLanguageFromFilename ''show.zh.hi.srt'' = Some ''hi''"
    by code_simp
qed

theorem extractLanguageFromFilename_last_suffix_witness:
  "list_all (\<lambda>p. regex_match p ''notes.txt'' = None) patterns
   \<and> extractLanguageFromFilename ''notes.txt'' = None
   \<and> atom_matches Letter CHR ''e'' \<and> atom_matches Letter CHR ''n''
   \<and> atom_matches Letter CHR ''J'' \<and> atom_matches Letter CHR ''A''
   \<and> toLowerCase ''SRT'' \<in> set extensions
   \<and> extractLanguageFromFilename ''ep1.en.JA.SRT'' = Some ''ja''"
proof -
  have none: "list_all (\<lambda>p. regex_match p ''notes.txt'' = None) patterns"
    by code_simp
  have letters: "atom_matches Letter CHR ''e'' \<and> atom_matches Letter CHR ''n''
      \<and> atom_matches Letter CHR ''J'' \<and> atom_matches Letter CHR ''A''
      \<and> toLowerCase ''SRT'' \<in> set extensions"
    by code_simp
  have low: "toLowerCase ''JA'' = ''ja''"
    by code_simp
  note t = extractLanguageFromFilename_last_suffix
    [of "''notes.txt''" "CHR ''e''" "CHR ''n''" "CHR ''J''" "CHR ''A''" "''SRT''" "''ep1''"]
  from t none have a: "extractLanguageFromFilename ''notes.txt'' = None"
    by (simp add: list_all_iff)
  from t letters low have b: "extractLanguageFromFilename ''ep1.en.JA.SRT'' = Some ''ja''"
    by simp
  from none a letters b show ?thesis by simp
qed

section \<open>The selection of episodes\<close>

lemma episode_id_entryInfo [simp]: "episode_id (entryInfo entry) = ep_id (fst entry)"
  by (simp add: entryInfo_def episodeInfo_def)

lemma in_idsWhere:
  "x \<in> idsWhere Q episodes \<longleftrightarrow> (\<exists>entry \<in> set episodes. Q entry \<and> ep_id (fst entry) = x)"
  unfolding idsWhere_def by force

lemma list_ex_details:
  "list_ex (\<lambda>secEp. episode_id secEp = x) (map entryInfo (filter Q episodes)) \<longleftrightarrow> x \<in> idsWhere Q episodes"
  unfolding in_idsWhere list_ex_iff by force

lemma episodesWithBoth_analysis:
  assumes "availability_get (getSubtitleAnalysis episodes) p = Entry P"
      and "availability_get (getSubtitleAnalysis episodes) s = Entry S"
  shows "episodesWithBoth P S =
           map entryInfo (filter (\<lambda>entry. hasLanguage p entry
                                   \<and> ep_id (fst entry) \<in> idsWhere (hasLanguage s) episodes) episodes)"
proof -
  have P: "episode_details P = map entryInfo (filter (hasLanguage p) episodes)"
    using availability_get_EntryD(2) [OF assms(1)] by (simp add: toAvailability_after)
  have S: "episode_details S = map entryInfo (filter (hasLanguage s) episodes)"
    using availability_get_EntryD(2) [OF assms(2)] by (simp add: toAvailability_after)
  show ?thesis
    by (simp add: episodesWithBoth_def P S list_ex_details filter_map comp_def conj_commute)
qed

lemma distinct_ids_unique:
  assumes "distinct (map (\<lambda>entry. ep_id (fst entry)) episodes)" "entry \<in> set episodes"
  shows "ep_id (fst entry) \<in> idsWhere Q episodes \<longleftrightarrow> Q entry"
proof
  assume "ep_id (fst entry) \<in> idsWhere Q episodes"
  then obtain e' where e': "e' \<in> set episodes" "Q e'" "ep_id (fst e') = ep_id (fst entry)"
    by (auto simp: idsWhere_def)
  from assms(1) have "inj_on (\<lambda>entry. ep_id (fst entry)) (set episodes)"
    by (simp add: distinct_map)
  with e' assms(2) have "e' = entry" by (auto dest: inj_onD)
  with e' show "Q entry" by simp
next
  assume "Q entry" with assms(2) show "ep_id (fst entry) \<in> idsWhere Q episodes"
    by (auto simp: idsWhere_def)
qed

lemma card_idsWhere:
  assumes "distinct (map (\<lambda>entry. ep_id (fst entry)) episodes)"
  shows "card (idsWhere Q episodes) = length (filter Q episodes)"
proof -
  have "distinct (map (\<lambda>entry. ep_id (fst entry)) (filter Q episodes))"
    using assms by (rule distinct_map_filter)
  then have "card (set (map (\<lambda>entry. ep_id (fst entry)) (filter Q episodes)))
             = length (map (\<lambda>entry. ep_id (fst entry)) (filter Q episodes))"
    by (rule distinct_card)
  then show ?thesis
    unfolding idsWhere_def by simp
qed

lemma idsWhere_conj:
  assumes "distinct (map (\<lambda>entry. ep_id (fst entry)) episodes)"
  shows "idsWhere (\<lambda>entry. Q entry \<and> R entry) episodes = idsWhere Q episodes \<inter> idsWhere R episodes"
proof -
  have "\<And>entry. entry \<in> set episodes \<Longrightarrow> (ep_id (fst entry) \<in> idsWhere R episodes) = R entry"
    using assms by (rule distinct_ids_unique)
  then show ?thesis
    by (auto simp: idsWhere_def)
qed

lemma episodesWithBoth_distinct:
  assumes "distinct (map (\<lambda>entry. ep_id (fst entry)) episodes)"
      and "availability_get (getSubtitleAnalysis episodes) p = Entry P"
      and "availability_get (getSubtitleAnalysis episodes) s = Entry S"
  shows "episodesWithBoth P S =
           map entryInfo (filter (\<lambda>entry. hasLanguage p entry \<and> hasLanguage s entry) episodes)"
proof -
  have "filter (\<lambda>entry. hasLanguage p entry \<and> ep_id (fst entry) \<in> idsWhere (hasLanguage s) episodes) episodes
        = filter (\<lambda>entry. hasLanguage p entry \<and> hasLanguage s entry) episodes"
    by (rule filter_cong) (auto simp: distinct_ids_unique [OF assms(1)])
  then show ?thesis
    by (simp add: episodesWithBoth_analysis [OF assms(2,3)])
qed

lemma stats_available:
  assumes "list_ex (hasLanguage p) episodes" "list_ex (hasLanguage s) episodes"
  shows "\<exists>P S. availability_get (getSubtitleAnalysis episodes) p = Entry P
           \<and> availability_get (getSubtitleAnalysis episodes) s = Entry S
           \<and> episodes_available P = card (idsWhere (hasLanguage p) episodes)
           \<and> episodes_available S = card (idsWhere (hasLanguage s) episodes)
           \<and> stats (getSubtitleAnalysis episodes) p s
               = Inr (statsOf (getSubtitleAnalysis episodes) p s P S)"
  using assms by (simp add: availability_get_entry toAvailability_after stats_def)

lemma card_split_inter:
  fixes A B :: "'a set"
  assumes "finite A"
  shows "card A = card (A - B) + card (A \<inter> B)"
proof -
  have "card ((A - B) \<union> (A \<inter> B)) = card (A - B) + card (A \<inter> B)"
    using assms by (intro card_Un_disjoint) auto
  moreover have "(A - B) \<union> (A \<inter> B) = A"
    by blast
  ultimately show ?thesis by simp
qed

lemma max_minus_inter:
  fixes A B :: "'a set"
  assumes "finite A" "finite B"
  shows "int (max (card A) (card B)) - int (card (A \<inter> B)) = int (max (card (A - B)) (card (B - A)))"
proof -
  have a: "card A = card (A - B) + card (A \<inter> B)"
    using assms(1) by (rule card_split_inter)
  have b: "card B = card (B - A) + card (A \<inter> B)"
    using card_split_inter [OF assms(2), of A] by (simp add: Int_commute)
  show ?thesis
    using a b by linarith
qed

lemma hasLanguage_listing: "hasLanguage L entry \<Longrightarrow> \<exists>subs. snd entry = Some subs"
  by (cases "snd entry") (simp_all add: hasLanguage_def hasExternal_def hasEmbedded_def)

lemma episodeHasDualSubtitle_entryInfo:
  assumes "snd entry = Some subs"
  shows "episodeHasDualSubtitle (entryInfo entry) p s = hasDualFor p s entry"
  using assms
  by (cases "external_subtitles subs")
     (auto simp: episodeHasDualSubtitle_def entryInfo_def episodeInfo_def hasDualFor_def list_ex_iff)

lemma filter_existing_dual:
  "filter (\<lambda>ep. episodeHasDualSubtitle ep p s)
      (map entryInfo (filter (\<lambda>entry. hasLanguage p entry \<and> hasLanguage s entry) episodes))
   = map entryInfo (filter (\<lambda>entry. hasLanguage p entry \<and> hasLanguage s entry \<and> hasDualFor p s entry) episodes)"
proof -
  have "filter ((\<lambda>ep. episodeHasDualSubtitle ep p s) \<circ> entryInfo)
          (filter (\<lambda>entry. hasLanguage p entry \<and> hasLanguage s entry) episodes)
        = filter (\<lambda>entry. hasLanguage p entry \<and> hasLanguage s entry \<and> hasDualFor p s entry) episodes"
    unfolding filter_filter comp_def
  proof (rule filter_cong [OF refl])
    fix entry
    show "(hasLanguage p entry \<and> hasLanguage s entry) \<and> episodeHasDualSubtitle (entryInfo entry) p s
          \<longleftrightarrow> hasLanguage p entry \<and> hasLanguage s entry \<and> hasDualFor p s entry"
    proof (cases "hasLanguage p entry")
      case True
      then obtain subs where "snd entry = Some subs"
        using hasLanguage_listing by blast
      then show ?thesis
        by (simp add: episodeHasDualSubtitle_entryInfo)
    next
      case False
      then show ?thesis by simp
    qed
  qed
  then show ?thesis
    by (simp add: filter_map)
qed

lemma filter_not_existing_dual:
  "filter (\<lambda>ep. case existing_dual_subtitles ep of None \<Rightarrow> True
                 | Some ds \<Rightarrow> \<not> list_ex (isRequestedPair p s) ds)
      (map entryInfo (filter (\<lambda>entry. hasLanguage p entry \<and> hasLanguage s entry) episodes))
   = map entryInfo (filter (readyFor p s) episodes)"
proof -
  have eq: "(case existing_dual_subtitles (entryInfo entry) of None \<Rightarrow> True
             | Some ds \<Rightarrow> \<not> list_ex (isRequestedPair p s) ds)
            = (\<not> episodeHasDualSubtitle (entryInfo entry) p s)" for entry
    by (simp add: episodeHasDualSubtitle_def entryInfo_def episodeInfo_def)
  have "filter ((\<lambda>ep. case existing_dual_subtitles ep of None \<Rightarrow> True
                 | Some ds \<Rightarrow> \<not> list_ex (isRequestedPair p s) ds) \<circ> entryInfo)
          (filter (\<lambda>entry. hasLanguage p entry \<and> hasLanguage s entry) episodes)
        = filter (readyFor p s) episodes"
    unfolding filter_filter comp_def eq
  proof (rule filter_cong [OF refl])
    fix entry
    show "(hasLanguage p entry \<and> hasLanguage s entry) \<and> \<not> episodeHasDualSubtitle (entryInfo entry) p s
          \<longleftrightarrow> readyFor p s entry"
    proof (cases "hasLanguage p entry")
      case True
      then obtain subs where "snd entry = Some subs"
        using hasLanguage_listing by blast
      then show ?thesis
        by (simp add: episodeHasDualSubtitle_entryInfo readyFor_def)
    next
      case False
      then show ?thesis by (simp add: readyFor_def)
    qed
  qed
  then show ?thesis
    by (simp add: filter_map)
qed

lemma taskList_distinct:
  assumes "distinct (map (\<lambda>entry. ep_id (fst entry)) episodes)"
  shows "taskList episodes p s = map entryInfo (filter (readyFor p s) episodes)"
proof (cases "list_ex (hasLanguage p) episodes \<and> list_ex (hasLanguage s) episodes")
  case True
  then obtain P S where
    PS: "availability_get (getSubtitleAnalysis episodes) p = Entry P"
        "availability_get (getSubtitleAnalysis episodes) s = Entry S"
    by (auto simp: availability_get_entry)
  show ?thesis
    by (simp add: taskList_def PS episodesToProcess_def
                  episodesWithBoth_distinct [OF assms PS] filter_not_existing_dual)
next
  case False
  then have "filter (readyFor p s) episodes = []"
    by (auto simp: filter_empty_conv readyFor_def list_ex_iff)
  moreover have "taskList episodes p s = []"
  proof -
    from False have "entryOf (availability_get (getSubtitleAnalysis episodes) p) = None
                     \<or> entryOf (availability_get (getSubtitleAnalysis episodes) s) = None"
      using availability_get_no_entry [of p episodes] availability_get_no_entry [of s episodes]
      by auto
    then show ?thesis
      by (auto simp: taskList_def entryOf_def split: availability_read.splits)
  qed
  ultimately show ?thesis by simp
qed

lemma length_filter_split:
  "length (filter (\<lambda>x. Q x \<and> R x) xs) + length (filter (\<lambda>x. Q x \<and> \<not> R x) xs) = length (filter Q xs)"
  by (induction xs) auto

lemma stats_distinct:
  assumes "distinct (map (\<lambda>entry. ep_id (fst entry)) episodes)"
      and "list_ex (hasLanguage p) episodes" "list_ex (hasLanguage s) episodes"
  shows "stats (getSubtitleAnalysis episodes) p s =
           Inr \<lparr>ready = int (card (idsWhere (readyFor p s) episodes)),
                needsAttention =
                  int (max (card (idsWhere (hasLanguage p) episodes)) (card (idsWhere (hasLanguage s) episodes)))
                  - int (card (idsWhere (hasLanguage p) episodes \<inter> idsWhere (hasLanguage s) episodes)),
                willSkip =
                  int (length episodes)
                  - int (max (card (idsWhere (hasLanguage p) episodes)) (card (idsWhere (hasLanguage s) episodes))),
                alreadyExists =
                  int (card (idsWhere (\<lambda>entry. hasLanguage p entry \<and> hasLanguage s entry \<and> hasDualFor p s entry)
                               episodes))\<rparr>"
proof -
  let ?P = "idsWhere (hasLanguage p) episodes" and ?S = "idsWhere (hasLanguage s) episodes"
  let ?both = "\<lambda>entry. hasLanguage p entry \<and> hasLanguage s entry"
  from stats_available [OF assms(2,3)] obtain P S where
    PS: "availability_get (getSubtitleAnalysis episodes) p = Entry P"
        "availability_get (getSubtitleAnalysis episodes) s = Entry S"
        "episodes_available P = card ?P" "episodes_available S = card ?S"
        "stats (getSubtitleAnalysis episodes) p s = Inr (statsOf (getSubtitleAnalysis episodes) p s P S)"
    by blast
  have both: "episodesWithBoth P S = map entryInfo (filter ?both episodes)"
    by (rule episodesWithBoth_distinct [OF assms(1) PS(1,2)])
  have len: "length (episodesWithBoth P S) = card (?P \<inter> ?S)"
    by (simp add: both card_idsWhere [OF assms(1), symmetric] idsWhere_conj [OF assms(1)])
  let ?dual = "\<lambda>entry. hasLanguage p entry \<and> hasLanguage s entry \<and> hasDualFor p s entry"
  have ex: "length (filter (\<lambda>ep. episodeHasDualSubtitle ep p s) (episodesWithBoth P S))
            = card (idsWhere ?dual episodes)"
    by (simp add: both filter_existing_dual card_idsWhere [OF assms(1)])
  have rf: "readyFor p s = (\<lambda>entry. ?both entry \<and> \<not> hasDualFor p s entry)"
    by (auto simp: readyFor_def fun_eq_iff)
  have split: "length (filter ?dual episodes) + length (filter (readyFor p s) episodes)
               = length (filter ?both episodes)"
    using length_filter_split [of ?both "hasDualFor p s" episodes] by (simp add: rf)
  have cb: "card (?P \<inter> ?S) = length (filter ?both episodes)"
    by (simp add: card_idsWhere [OF assms(1), symmetric] idsWhere_conj [OF assms(1)])
  have rd: "int (card (?P \<inter> ?S)) - int (card (idsWhere ?dual episodes))
            = int (card (idsWhere (readyFor p s) episodes))"
    unfolding card_idsWhere [OF assms(1)] cb using split by linarith
  have tot: "total_episodes (getSubtitleAnalysis episodes) = length episodes"
    by (simp add: getSubtitleAnalysis_def)
  have "statsOf (getSubtitleAnalysis episodes) p s P S =
          \<lparr>ready = int (card (?P \<inter> ?S)) - int (card (idsWhere ?dual episodes)),
           needsAttention = max (int (card ?P)) (int (card ?S)) - int (card (?P \<inter> ?S)),
           willSkip = int (length episodes) - max (int (card ?P)) (int (card ?S)),
           alreadyExists = int (card (idsWhere ?dual episodes))\<rparr>"
    unfolding statsOf_def Let_def PS(3,4) len ex tot by (rule refl)
  then show ?thesis
    unfolding PS(5) rd by simp
qed

text \<open>
  Claim C3, as the code has it. For the analysis of a show whose episode ids are
  distinct, and two chosen languages that both occur in it, \<open>needsAttention\<close> is
  max(|primary availability|, |secondary availability|) minus the number of episodes
  available in both languages. That is the larger of the two one-sided counts
  (episodes with the primary language only, episodes with the secondary only). It is
  the number of episodes present in exactly one of the two availabilities when one
  language's episodes include the other's, and smaller than that number otherwise.
\<close>

theorem needsAttention_formula:
  assumes "distinct (map (\<lambda>entry. ep_id (fst entry)) episodes)"
      and "list_ex (hasLanguage p) episodes" and "list_ex (hasLanguage s) episodes"
  shows "case stats (getSubtitleAnalysis episodes) p s of
           Inl failure \<Rightarrow> False
         | Inr st \<Rightarrow>
             needsAttention st
               = int (max (card (idsWhere (hasLanguage p) episodes)) (card (idsWhere (hasLanguage s) episodes)))
                 - int (card (idsWhere (hasLanguage p) episodes \<inter> idsWhere (hasLanguage s) episodes))
           \<and> needsAttention st
               = int (max (card (idsWhere (hasLanguage p) episodes - idsWhere (hasLanguage s) episodes))
                          (card (idsWhere (hasLanguage s) episodes - idsWhere (hasLanguage p) episodes)))
           \<and> (if idsWhere (hasLanguage p) episodes \<subseteq> idsWhere (hasLanguage s) episodes
                   \<or> idsWhere (hasLanguage s) episodes \<subseteq> idsWhere (hasLanguage p) episodes
                then needsAttention st
                     = int (card (exactlyOne (idsWhere (hasLanguage p) episodes)
                                             (idsWhere (hasLanguage s) episodes)))
                else needsAttention st
                     < int (card (exactlyOne (idsWhere (hasLanguage p) episodes)
                                             (idsWhere (hasLanguage s) episodes))))"
proof -
  let ?P = "idsWhere (hasLanguage p) episodes" and ?S = "idsWhere (hasLanguage s) episodes"
  have fin: "finite ?P" "finite ?S" by (simp_all add: idsWhere_def)
  have mm: "int (max (card ?P) (card ?S)) - int (card (?P \<inter> ?S))
            = int (max (card (?P - ?S)) (card (?S - ?P)))"
    by (rule max_minus_inter [OF fin])
  have disj: "card (exactlyOne ?P ?S) = card (?P - ?S) + card (?S - ?P)"
    unfolding exactlyOne_def using fin by (intro card_Un_disjoint) auto
  have sub: "?P \<subseteq> ?S \<or> ?S \<subseteq> ?P \<longleftrightarrow> card (?P - ?S) = 0 \<or> card (?S - ?P) = 0"
    using fin by auto
  have third: "if ?P \<subseteq> ?S \<or> ?S \<subseteq> ?P
               then int (max (card (?P - ?S)) (card (?S - ?P))) = int (card (exactlyOne ?P ?S))
               else int (max (card (?P - ?S)) (card (?S - ?P))) < int (card (exactlyOne ?P ?S))"
    unfolding sub disj by auto
  define N where "N = int (max (card ?P) (card ?S)) - int (card (?P \<inter> ?S))"
  have st: "stats (getSubtitleAnalysis episodes) p s =
              Inr \<lparr>ready = int (card (idsWhere (readyFor p s) episodes)),
                   needsAttention = N,
                   willSkip = int (length episodes) - int (max (card ?P) (card ?S)),
                   alreadyExists =
                     int (card (idsWhere (\<lambda>entry. hasLanguage p entry \<and> hasLanguage s entry
                                              \<and> hasDualFor p s entry) episodes))\<rparr>"
    unfolding N_def by (rule stats_distinct [OF assms])
  have a: "N = int (max (card ?P) (card ?S)) - int (card (?P \<inter> ?S))"
    by (simp only: N_def)
  have b: "N = int (max (card (?P - ?S)) (card (?S - ?P)))"
    unfolding N_def by (rule mm)
  have c: "if ?P \<subseteq> ?S \<or> ?S \<subseteq> ?P then N = int (card (exactlyOne ?P ?S))
           else N < int (card (exactlyOne ?P ?S))"
    unfolding b by (rule third)
  show ?thesis
    unfolding st sum.case Stats.select_convs using a b c by blast
qed

theorem needsAttention_formula_witness:
  "distinct (map (\<lambda>entry. ep_id (fst entry)) sampleShow)
   \<and> list_ex (hasLanguage ''en'') sampleShow \<and> list_ex (hasLanguage ''ja'') sampleShow
   \<and> idsWhere (hasLanguage ''ja'') sampleShow \<subseteq> idsWhere (hasLanguage ''en'') sampleShow
   \<and> map_sum (\<lambda>failure. failure) needsAttention (stats (getSubtitleAnalysis sampleShow) ''en'' ''ja'') = Inr 1
   \<and> card (exactlyOne (idsWhere (hasLanguage ''en'') sampleShow) (idsWhere (hasLanguage ''ja'') sampleShow)) = 1"
proof -
  have d: "distinct (map (\<lambda>entry. ep_id (fst entry)) sampleShow)" by code_simp
  have en: "list_ex (hasLanguage ''en'') sampleShow" by code_simp
  have ja: "list_ex (hasLanguage ''ja'') sampleShow" by code_simp
  have sub: "idsWhere (hasLanguage ''ja'') sampleShow \<subseteq> idsWhere (hasLanguage ''en'') sampleShow"
    by code_simp
  have st: "stats (getSubtitleAnalysis sampleShow) ''en'' ''ja''
            = Inr \<lparr>ready = 3, needsAttention = 1, willSkip = 1, alreadyExists = 1\<rparr>"
    by code_simp
  from needsAttention_formula [OF d en ja] sub st
  have "card (exactlyOne (idsWhere (hasLanguage ''en'') sampleShow) (idsWhere (hasLanguage ''ja'') sampleShow)) = 1"
    by simp
  with d en ja sub st show ?thesis by simp
qed

text \<open>
  The claim as it was stated fails where each language has an episode of its own: with
  one English-only and one Japanese-only episode, two episodes are present in exactly
  one availability and \<open>needsAttention\<close> is 1.
\<close>

theorem needsAttention_not_exactly_one:
  "distinct (map (\<lambda>entry. ep_id (fst entry)) splitShow)
   \<and> stats (getSubtitleAnalysis splitShow) ''en'' ''ja''
       = Inr \<lparr>ready = 0, needsAttention = 1, willSkip = 1, alreadyExists = 0\<rparr>
   \<and> card (exactlyOne (idsWhere (hasLanguage ''en'') splitShow) (idsWhere (hasLanguage ''ja'') splitShow)) = 2"
  by code_simp

lemma idsWhere_nonempty:
  assumes "0 < card (idsWhere Q episodes)"
  shows "list_ex Q episodes"
proof (rule ccontr)
  assume "\<not> list_ex Q episodes"
  then have "filter Q episodes = []"
    by (simp add: list_ex_iff filter_empty_conv)
  then have "idsWhere Q episodes = {}"
    by (simp add: idsWhere_def)
  with assms show False by simp
qed

text \<open>
  Claim C8. A show of 24 episodes (with distinct ids) in which the primary language is
  available in all 24, the secondary language in 22, and 2 of those 22 have an existing
  dual subtitle for the pair: the preview computes ready = 20, alreadyExists = 2,
  needsAttention = 2 and willSkip = 0. The season of 24 episodes defined above, with
  English and Japanese, is such a show.
\<close>

theorem season_of_24_stats:
  assumes d: "distinct (map (\<lambda>entry. ep_id (fst entry)) episodes)"
      and total: "length episodes = 24"
      and primary: "card (idsWhere (hasLanguage p) episodes) = 24"
      and secondary: "card (idsWhere (hasLanguage s) episodes) = 22"
      and existing: "card (idsWhere (\<lambda>entry. hasLanguage s entry \<and> hasDualFor p s entry) episodes) = 2"
  shows "stats (getSubtitleAnalysis episodes) p s
         = Inr \<lparr>ready = 20, needsAttention = 2, willSkip = 0, alreadyExists = 2\<rparr>"
proof -
  let ?P = "idsWhere (hasLanguage p) episodes" and ?S = "idsWhere (hasLanguage s) episodes"
  have "length (filter (hasLanguage p) episodes) = length episodes"
    using primary total by (simp add: card_idsWhere [OF d])
  then have allp: "\<And>entry. entry \<in> set episodes \<Longrightarrow> hasLanguage p entry"
    by (metis filter_True length_filter_less less_irrefl)
  have drop_p: "filter (\<lambda>entry. hasLanguage p entry \<and> Q entry) episodes = filter Q episodes" for Q
    by (rule filter_cong) (auto simp: allp)
  have ids_p: "idsWhere (\<lambda>entry. hasLanguage p entry \<and> Q entry) episodes = idsWhere Q episodes" for Q
    by (simp add: idsWhere_def drop_p)
  have exp: "list_ex (hasLanguage p) episodes"
    by (rule idsWhere_nonempty) (simp add: primary)
  have exs: "list_ex (hasLanguage s) episodes"
    by (rule idsWhere_nonempty) (simp add: secondary)
  have inter: "?P \<inter> ?S = ?S"
    using ids_p [of "hasLanguage s"] by (simp add: idsWhere_conj [OF d])
  have rf: "readyFor p s = (\<lambda>entry. hasLanguage p entry \<and> (hasLanguage s entry \<and> \<not> hasDualFor p s entry))"
    by (auto simp: readyFor_def fun_eq_iff)
  have "length (filter (\<lambda>entry. hasLanguage s entry \<and> hasDualFor p s entry) episodes)
          + length (filter (\<lambda>entry. hasLanguage s entry \<and> \<not> hasDualFor p s entry) episodes)
        = length (filter (hasLanguage s) episodes)"
    by (rule length_filter_split)
  then have ready: "card (idsWhere (readyFor p s) episodes) = 20"
    using secondary existing unfolding rf ids_p card_idsWhere [OF d] by linarith
  show ?thesis
    unfolding stats_distinct [OF d exp exs] inter ids_p ready primary secondary existing total
    by simp
qed

theorem season_of_24_stats_witness:
  "distinct (map (\<lambda>entry. ep_id (fst entry)) scenario)
   \<and> length scenario = 24
   \<and> map_option countsOf (language_availability (getSubtitleAnalysis scenario) ''en'') = Some (24, 20, 4)
   \<and> map_option countsOf (language_availability (getSubtitleAnalysis scenario) ''ja'') = Some (22, 18, 4)
   \<and> card (idsWhere (hasLanguage ''en'') scenario) = 24
   \<and> card (idsWhere (hasLanguage ''ja'') scenario) = 22
   \<and> card (idsWhere (\<lambda>entry. hasLanguage ''ja'' entry \<and> hasDualFor ''en'' ''ja'' entry) scenario) = 2
   \<and> stats (getSubtitleAnalysis scenario) ''en'' ''ja''
       = Inr \<lparr>ready = 20, needsAttention = 2, willSkip = 0, alreadyExists = 2\<rparr>"
proof -
  have d: "distinct (map (\<lambda>entry. ep_id (fst entry)) scenario)" by code_simp
  have n: "length scenario = 24" by code_simp
  have en: "card (idsWhere (hasLanguage ''en'') scenario) = 24" by code_simp
  have ja: "card (idsWhere (hasLanguage ''ja'') scenario) = 22" by code_simp
  have du: "card (idsWhere (\<lambda>entry. hasLanguage ''ja'' entry \<and> hasDualFor ''en'' ''ja'' entry) scenario) = 2"
    by code_simp
  have c1: "map_option countsOf (language_availability (getSubtitleAnalysis scenario) ''en'') = Some (24, 20, 4)"
    by code_simp
  have c2: "map_option countsOf (language_availability (getSubtitleAnalysis scenario) ''ja'') = Some (22, 18, 4)"
    by code_simp
  from season_of_24_stats [OF d n en ja du] d n en ja du c1 c2 show ?thesis by simp
qed

section \<open>The bulk run, written out\<close>

lemma processTask_eq:
  "processTask w p s cfg n i ep st =
     \<lparr>results = \<lparr>successful = successful (results st) @ successfulAt w p s cfg ep,
                  failed = failed (results st) @ failedAt w p s cfg ep,
                  skipped = skipped (results st) @ skippedAt w p s cfg ep\<rparr>,
      episodeTimes = episodeTimes st @ taskTimes w p s cfg,
      reports = reports st @ [progressReport n i ep (episodeTimes st)],
      requests = requests st @ requestsAt w p s cfg ep\<rparr>"
  by (cases "attempt w p s cfg")
     (auto simp: processTask_def Let_def successfulAt_def failedAt_def skippedAt_def taskTimes_def
                 requestsAt_def logRequest_def split: option.splits)

lemma recordedBefore_Suc:
  "recordedBefore world p s cfg (Suc k) = recordedBefore world p s cfg k @ taskTimes (world k) p s cfg"
  by (simp add: recordedBefore_def)

lemma bulkLoop_from:
  "bulkLoop world p s cfg n (length done) rest (loopResult world p s cfg n done)
     = loopResult world p s cfg n (done @ rest)"
proof (induction rest arbitrary: "done")
  case Nil
  then show ?case by simp
next
  case (Cons ep rest)
  have step: "processTask (world (length done)) p s cfg n (length done) ep (loopResult world p s cfg n done)
              = loopResult world p s cfg n (done @ [ep])"
    by (simp add: processTask_eq loopResult_def enumerate_append_eq recordedBefore_Suc)
  have "bulkLoop world p s cfg n (length (done @ [ep])) rest (loopResult world p s cfg n (done @ [ep]))
        = loopResult world p s cfg n ((done @ [ep]) @ rest)"
    by (rule Cons.IH)
  then show ?case
    by (simp add: step)
qed

lemma runTasks_eq:
  "runTasks world p s cfg tasks =
     (loopResult world p s cfg (length tasks) tasks)
       \<lparr>reports := reports (loopResult world p s cfg (length tasks) tasks) @ [finalReport (length tasks)]\<rparr>"
proof -
  have init: "initialState = loopResult world p s cfg (length tasks) []"
    by (simp add: initialState_def loopResult_def recordedBefore_def)
  have "bulkLoop world p s cfg (length tasks) (length ([]::EpisodeSubtitleInfo list)) tasks
          (loopResult world p s cfg (length tasks) [])
        = loopResult world p s cfg (length tasks) ([] @ tasks)"
    by (rule bulkLoop_from)
  then show ?thesis
    by (simp add: runTasks_def Let_def init)
qed

lemma results_runTasks:
  "successful (results (runTasks world p s cfg tasks))
     = concat (map (\<lambda>(k, ep). successfulAt (world k) p s cfg ep) (List.enumerate 0 tasks))"
  "failed (results (runTasks world p s cfg tasks))
     = concat (map (\<lambda>(k, ep). failedAt (world k) p s cfg ep) (List.enumerate 0 tasks))"
  "skipped (results (runTasks world p s cfg tasks))
     = concat (map (\<lambda>(k, ep). skippedAt (world k) p s cfg ep) (List.enumerate 0 tasks))"
  "requests (runTasks world p s cfg tasks)
     = concat (map (\<lambda>(k, ep). requestsAt (world k) p s cfg ep) (List.enumerate 0 tasks))"
  by (simp_all add: runTasks_eq loopResult_def)

lemma run_is_runTasks:
  assumes "processBulkDualSubtitles (Some episodes) world p s cfg = Inr st"
  shows "st = runTasks world p s cfg (taskList episodes p s)"
  using assms
  by (auto simp: processBulkDualSubtitles_def taskList_def split: availability_read.splits if_splits)

lemma run_available:
  assumes "list_ex (hasLanguage p) episodes" "list_ex (hasLanguage s) episodes"
  shows "processBulkDualSubtitles (Some episodes) world p s cfg
         = Inr (runTasks world p s cfg (taskList episodes p s))"
  using assms by (simp add: processBulkDualSubtitles_def taskList_def availability_get_entry)

lemma ids_of_task:
  "mset (map s_episode_id (successfulAt w p s cfg ep))
     + mset (map f_episode_id (failedAt w p s cfg ep))
     + mset (map k_episode_id (skippedAt w p s cfg ep))
   = {#episode_id ep#}"
  by (cases "attempt w p s cfg") (simp_all add: successfulAt_def failedAt_def skippedAt_def)

lemma ids_of_tasks:
  "mset (map s_episode_id (concat (map (\<lambda>(k, ep). successfulAt (world k) p s cfg ep) (List.enumerate i tasks))))
     + mset (map f_episode_id (concat (map (\<lambda>(k, ep). failedAt (world k) p s cfg ep) (List.enumerate i tasks))))
     + mset (map k_episode_id (concat (map (\<lambda>(k, ep). skippedAt (world k) p s cfg ep) (List.enumerate i tasks))))
   = mset (map episode_id tasks)"
proof (induction tasks arbitrary: i)
  case Nil
  then show ?case by simp
next
  case (Cons ep tasks)
  let ?S = "\<lambda>i tasks. mset (map s_episode_id
              (concat (map (\<lambda>(k, ep). successfulAt (world k) p s cfg ep) (List.enumerate i tasks))))"
  let ?F = "\<lambda>i tasks. mset (map f_episode_id
              (concat (map (\<lambda>(k, ep). failedAt (world k) p s cfg ep) (List.enumerate i tasks))))"
  let ?K = "\<lambda>i tasks. mset (map k_episode_id
              (concat (map (\<lambda>(k, ep). skippedAt (world k) p s cfg ep) (List.enumerate i tasks))))"
  have S: "?S i (ep # tasks) = mset (map s_episode_id (successfulAt (world i) p s cfg ep)) + ?S (Suc i) tasks"
    by simp
  have F: "?F i (ep # tasks) = mset (map f_episode_id (failedAt (world i) p s cfg ep)) + ?F (Suc i) tasks"
    by simp
  have K: "?K i (ep # tasks) = mset (map k_episode_id (skippedAt (world i) p s cfg ep)) + ?K (Suc i) tasks"
    by simp
  have "?S i (ep # tasks) + ?F i (ep # tasks) + ?K i (ep # tasks)
        = (mset (map s_episode_id (successfulAt (world i) p s cfg ep))
            + mset (map f_episode_id (failedAt (world i) p s cfg ep))
            + mset (map k_episode_id (skippedAt (world i) p s cfg ep)))
          + (?S (Suc i) tasks + ?F (Suc i) tasks + ?K (Suc i) tasks)"
    unfolding S F K by (simp only: ac_simps)
  also have "\<dots> = {#episode_id ep#} + mset (map episode_id tasks)"
    unfolding ids_of_task Cons.IH by (rule refl)
  finally show ?case by simp
qed

lemma resultIds_runTasks:
  "mset (resultIds (results (runTasks world p s cfg tasks))) = mset (map episode_id tasks)"
proof -
  have "mset (resultIds (results (runTasks world p s cfg tasks)))
        = mset (map s_episode_id (concat (map (\<lambda>(k, ep). successfulAt (world k) p s cfg ep) (List.enumerate 0 tasks))))
          + mset (map f_episode_id (concat (map (\<lambda>(k, ep). failedAt (world k) p s cfg ep) (List.enumerate 0 tasks))))
          + mset (map k_episode_id (concat (map (\<lambda>(k, ep). skippedAt (world k) p s cfg ep) (List.enumerate 0 tasks))))"
    by (simp add: runTasks_eq loopResult_def resultIds_def)
  then show ?thesis
    by (simp only: ids_of_tasks)
qed



lemma concat_member:
  assumes "x \<in> set (concat (map (\<lambda>(k, ep). F k ep) (List.enumerate 0 tasks)))"
  shows "\<exists>k < length tasks. x \<in> set (F k (tasks ! k))"
proof -
  from assms obtain k ep where "(k, ep) \<in> set (List.enumerate 0 tasks)" "x \<in> set (F k ep)"
    by auto
  then show ?thesis
    by (auto simp: in_set_enumerate_eq)
qed

lemma requestsAt_id: "x \<in> set (requestsAt w p s cfg ep) \<Longrightarrow> fst x = episode_id ep"
  by (cases "attempt w p s cfg") (auto simp: requestsAt_def split: option.splits)

lemma request_ids_runTasks:
  assumes "x \<in> set (requests (runTasks world p s cfg tasks))"
  shows "fst x \<in> set (map episode_id tasks)"
proof -
  from assms have "x \<in> set (concat (map (\<lambda>(k, ep). requestsAt (world k) p s cfg ep) (List.enumerate 0 tasks)))"
    by (simp add: runTasks_eq loopResult_def)
  then obtain k where k: "k < length tasks" "x \<in> set (requestsAt (world k) p s cfg (tasks ! k))"
    using concat_member [of x "\<lambda>k ep. requestsAt (world k) p s cfg ep" tasks] by blast
  then have "fst x = episode_id (tasks ! k)"
    by (simp add: requestsAt_id)
  with k(1) show ?thesis by simp
qed

lemma reports_runTasks:
  "length (reports (runTasks world p s cfg tasks)) = length tasks + 1"
  "reports (runTasks world p s cfg tasks) ! length tasks = finalReport (length tasks)"
  "k < length tasks \<Longrightarrow>
     reports (runTasks world p s cfg tasks) ! k
       = progressReport (length tasks) k (tasks ! k) (recordedBefore world p s cfg k)"
  by (simp_all add: runTasks_eq loopResult_def nth_append nth_enumerate_eq)

lemma episodeTimes_runTasks:
  "episodeTimes (runTasks world p s cfg tasks) = recordedBefore world p s cfg (length tasks)"
  by (simp add: runTasks_eq loopResult_def)









lemma taskList_ids_distinct:
  assumes "distinct (map (\<lambda>entry. ep_id (fst entry)) episodes)"
  shows "map episode_id (taskList episodes p s)
           = map (\<lambda>entry. ep_id (fst entry)) (filter (readyFor p s) episodes)"
    and "distinct (map episode_id (taskList episodes p s))"
proof -
  show eq: "map episode_id (taskList episodes p s)
           = map (\<lambda>entry. ep_id (fst entry)) (filter (readyFor p s) episodes)"
    by (simp add: taskList_distinct [OF assms] comp_def)
  show "distinct (map episode_id (taskList episodes p s))"
    unfolding eq using assms by (rule distinct_map_filter)
qed

section \<open>Properties of the bulk run\<close>

text \<open>
  Claim C1. For every bulk run that completes, the episode ids of the returned
  successful, failed and skipped lists, taken together, are exactly the episode ids of
  the task list, each as often as it occurs there. Where the show's episode ids are
  distinct, no id occurs twice in the three lists (so they are disjoint and free of
  duplicates), and their ids are those of the episodes that offer both languages and
  have no existing dual subtitle for the requested pair.
\<close>

theorem bulk_results_partition_tasks:
  assumes "processBulkDualSubtitles (Some episodes) world p s cfg = Inr st"
  shows "mset (resultIds (results st)) = mset (map episode_id (taskList episodes p s))
       \<and> (distinct (map (\<lambda>entry. ep_id (fst entry)) episodes)
            \<longrightarrow> distinct (resultIds (results st))
              \<and> set (resultIds (results st)) = idsWhere (readyFor p s) episodes)"
proof (intro conjI impI)
  have st: "st = runTasks world p s cfg (taskList episodes p s)"
    using assms by (rule run_is_runTasks)
  show m: "mset (resultIds (results st)) = mset (map episode_id (taskList episodes p s))"
    unfolding st by (rule resultIds_runTasks)
  assume d: "distinct (map (\<lambda>entry. ep_id (fst entry)) episodes)"
  have "distinct (map episode_id (taskList episodes p s))"
    using d by (rule taskList_ids_distinct(2))
  with m show "distinct (resultIds (results st))"
    using mset_eq_imp_distinct_iff by blast
  have "set (resultIds (results st)) = set (map episode_id (taskList episodes p s))"
    using m by (rule mset_eq_setD)
  then show "set (resultIds (results st)) = idsWhere (readyFor p s) episodes"
    unfolding taskList_ids_distinct(1) [OF d] idsWhere_def .
qed

theorem bulk_results_partition_tasks_witness:
  "processBulkDualSubtitles (Some sampleShow) sampleWorld ''en'' ''ja'' sampleConfig
     = Inr (runTasks sampleWorld ''en'' ''ja'' sampleConfig (taskList sampleShow ''en'' ''ja''))
   \<and> distinct (map (\<lambda>entry. ep_id (fst entry)) sampleShow)
   \<and> map episode_id (taskList sampleShow ''en'' ''ja'') = [''301'', ''303'', ''305'']
   \<and> map s_episode_id (successful (results (runTasks sampleWorld ''en'' ''ja'' sampleConfig
          (taskList sampleShow ''en'' ''ja'')))) = [''301'']
   \<and> map f_episode_id (failed (results (runTasks sampleWorld ''en'' ''ja'' sampleConfig
          (taskList sampleShow ''en'' ''ja'')))) = [''305'']
   \<and> map k_episode_id (skipped (results (runTasks sampleWorld ''en'' ''ja'' sampleConfig
          (taskList sampleShow ''en'' ''ja'')))) = [''303'']
   \<and> distinct (resultIds (results (runTasks sampleWorld ''en'' ''ja'' sampleConfig
          (taskList sampleShow ''en'' ''ja''))))
   \<and> idsWhere (readyFor ''en'' ''ja'') sampleShow = {''301'', ''303'', ''305''}"
proof -
  let ?st = "runTasks sampleWorld ''en'' ''ja'' sampleConfig (taskList sampleShow ''en'' ''ja'')"
  have run: "processBulkDualSubtitles (Some sampleShow) sampleWorld ''en'' ''ja'' sampleConfig = Inr ?st"
    by (rule run_available; code_simp)
  have d: "distinct (map (\<lambda>entry. ep_id (fst entry)) sampleShow)"
    by code_simp
  have t: "map episode_id (taskList sampleShow ''en'' ''ja'') = [''301'', ''303'', ''305'']"
    by code_simp
  have s: "map s_episode_id (successful (results ?st)) = [''301'']"
    unfolding results_runTasks by code_simp
  have f: "map f_episode_id (failed (results ?st)) = [''305'']"
    unfolding results_runTasks by code_simp
  have k: "map k_episode_id (skipped (results ?st)) = [''303'']"
    unfolding results_runTasks by code_simp
  have ids: "resultIds (results ?st) = [''301'', ''305'', ''303'']"
    by (simp add: resultIds_def s f k)
  from bulk_results_partition_tasks [OF run] d
  have "distinct (resultIds (results ?st))"
    and "set (resultIds (results ?st)) = idsWhere (readyFor ''en'' ''ja'') sampleShow"
    by blast+
  then have "distinct (resultIds (results ?st))"
    and "idsWhere (readyFor ''en'' ''ja'') sampleShow = {''301'', ''303'', ''305''}"
    unfolding ids by auto
  with run d t s f k show ?thesis by blast
qed

lemma not_ready_not_task:
  assumes d: "distinct (map (\<lambda>entry. ep_id (fst entry)) episodes)"
      and e: "entry \<in> set episodes" and n: "\<not> readyFor p s entry"
  shows "ep_id (fst entry) \<notin> set (map episode_id (taskList episodes p s))"
proof -
  have "set (map episode_id (taskList episodes p s)) = idsWhere (readyFor p s) episodes"
    unfolding taskList_ids_distinct(1) [OF d] idsWhere_def ..
  then show ?thesis
    using distinct_ids_unique [OF d e, of "readyFor p s"] n by simp
qed

text \<open>
  Claim C2, as the code has it. In a bulk run that completes on a show with distinct
  episode ids, an episode that has an existing dual subtitle whose first two languages
  are the requested pair, in either order, is never processed again: it is not in the
  task list, no creation request is sent for it, and it is in none of the three result
  lists.
\<close>

theorem existing_dual_never_processed:
  assumes "processBulkDualSubtitles (Some episodes) world p s cfg = Inr st"
      and "distinct (map (\<lambda>entry. ep_id (fst entry)) episodes)"
      and "entry \<in> set episodes" and "hasDualFor p s entry"
  shows "ep_id (fst entry) \<notin> set (map episode_id (taskList episodes p s))
       \<and> ep_id (fst entry) \<notin> fst ` set (requests st)
       \<and> ep_id (fst entry) \<notin> set (resultIds (results st))"
proof (intro conjI)
  have st: "st = runTasks world p s cfg (taskList episodes p s)"
    using assms(1) by (rule run_is_runTasks)
  have "\<not> readyFor p s entry"
    using assms(4) by (simp add: readyFor_def)
  with assms(2,3) show no_task: "ep_id (fst entry) \<notin> set (map episode_id (taskList episodes p s))"
    by (rule not_ready_not_task)
  show "ep_id (fst entry) \<notin> fst ` set (requests st)"
  proof
    assume "ep_id (fst entry) \<in> fst ` set (requests st)"
    then obtain x where "x \<in> set (requests st)" "fst x = ep_id (fst entry)"
      by auto
    with request_ids_runTasks [of x world p s cfg "taskList episodes p s"] no_task
    show False by (simp add: st)
  qed
  have "set (resultIds (results st)) = set (map episode_id (taskList episodes p s))"
    unfolding st using resultIds_runTasks by (rule mset_eq_setD)
  with no_task show "ep_id (fst entry) \<notin> set (resultIds (results st))"
    by simp
qed

theorem existing_dual_never_processed_witness:
  "processBulkDualSubtitles (Some sampleShow) sampleWorld ''en'' ''ja'' sampleConfig
     = Inr (runTasks sampleWorld ''en'' ''ja'' sampleConfig (taskList sampleShow ''en'' ''ja''))
   \<and> distinct (map (\<lambda>entry. ep_id (fst entry)) sampleShow)
   \<and> sampleShow ! 3 \<in> set sampleShow \<and> hasDualFor ''en'' ''ja'' (sampleShow ! 3)
   \<and> ep_id (fst (sampleShow ! 3)) = ''304''
   \<and> ''304'' \<notin> set (map episode_id (taskList sampleShow ''en'' ''ja''))
   \<and> ''304'' \<notin> fst ` set (requests (runTasks sampleWorld ''en'' ''ja'' sampleConfig
                                     (taskList sampleShow ''en'' ''ja'')))
   \<and> ''304'' \<notin> set (resultIds (results (runTasks sampleWorld ''en'' ''ja'' sampleConfig
                                     (taskList sampleShow ''en'' ''ja''))))"
proof -
  let ?st = "runTasks sampleWorld ''en'' ''ja'' sampleConfig (taskList sampleShow ''en'' ''ja'')"
  have run: "processBulkDualSubtitles (Some sampleShow) sampleWorld ''en'' ''ja'' sampleConfig = Inr ?st"
    by (rule run_available; code_simp)
  have d: "distinct (map (\<lambda>entry. ep_id (fst entry)) sampleShow)"
    by code_simp
  have e: "sampleShow ! 3 \<in> set sampleShow"
    by (simp add: sampleShow_def)
  have h: "hasDualFor ''en'' ''ja'' (sampleShow ! 3)"
    by code_simp
  have i: "ep_id (fst (sampleShow ! 3)) = ''304''"
    by code_simp
  from existing_dual_never_processed [OF run d e h] run d e h i show ?thesis
    by simp
qed

text \<open>
  The claim as it was stated also has the episode recorded in the skipped list with the
  reason "already exists". In the sample run episode 304, which has a dual subtitle for
  Japanese and English, is in no list at all, and the one skipped entry carries another
  reason.
\<close>

theorem existing_dual_not_recorded_as_skipped:
  "hasDualFor ''en'' ''ja'' (sampleShow ! 3) \<and> ep_id (fst (sampleShow ! 3)) = ''304''
   \<and> map_sum (\<lambda>failure. failure) (\<lambda>st. skipped (results st))
        (processBulkDualSubtitles (Some sampleShow) sampleWorld ''en'' ''ja'' sampleConfig)
      = Inr [\<lparr>k_episode_id = ''303'', k_reason = ''Missing en subtitle''\<rparr>]"
proof -
  let ?st = "runTasks sampleWorld ''en'' ''ja'' sampleConfig (taskList sampleShow ''en'' ''ja'')"
  have run: "processBulkDualSubtitles (Some sampleShow) sampleWorld ''en'' ''ja'' sampleConfig = Inr ?st"
    by (rule run_available; code_simp)
  have h: "hasDualFor ''en'' ''ja'' (sampleShow ! 3)" "ep_id (fst (sampleShow ! 3)) = ''304''"
    by code_simp+
  have k: "skipped (results ?st) = [\<lparr>k_episode_id = ''303'', k_reason = ''Missing en subtitle''\<rparr>]"
    unfolding results_runTasks by code_simp
  show ?thesis
    unfolding run by (simp add: h k)
qed









lemma foldl_plus: "foldl (+) a ts = a + sum_list ts" for a :: int
  by (induction ts arbitrary: a) simp_all

lemma averageTime_sum:
  "averageTime [] = 45000"
  "\<forall>ts. ts \<noteq> [] \<longrightarrow> averageTime ts = to_double (of_int (sum_list ts) / of_nat (length ts))"
  by (simp_all add: averageTime_def foldl_plus)

lemma averageTime_mset:
  assumes "mset ts = mset ts'"
  shows "averageTime ts = averageTime ts'"
proof -
  have "sum_list ts = sum_list ts'"
    using assms by (metis sum_mset_sum_list)
  moreover have "length ts = length ts'"
    using assms by (rule mset_eq_length)
  ultimately show ?thesis
    by (simp add: averageTime_def foldl_plus)
qed

lemma recordedBefore_step:
  "\<forall>k. recordedBefore world p s cfg (Suc k)
     = recordedBefore world p s cfg k
       @ (case attempt (world k) p s cfg of
            Done config result \<Rightarrow> [endTime (world k) - startTime (world k)]
          | _ \<Rightarrow> [])"
  by (simp add: recordedBefore_Suc taskTimes_def)

lemma show_int_samples:
  "show_int 13 = ''13''" "show_int 15 = ''15''" "show_int 16 = ''16''" "show_int 20 = ''20''"
  by code_simp+

text \<open>With 15 tasks remaining and the durations 1000, 1000 and 1100 recorded, the average
  is the double nearest to 3100 / 3, which lies below it; the product is a double below
  15500, and the estimate is printed as 15 seconds. In exact arithmetic the product is
  15500, which would be printed as 16 seconds.\<close>

lemma estimate_of_three_durations:
  "averageTime [1000, 1000, 1100] = 4544648061474133 / 4398046511104"
  "to_double (15 * averageTime [1000, 1000, 1100]) = 8521215115263999 / 549755813888"
  "formatTimeRemaining (to_double (15 * averageTime [1000, 1000, 1100])) = ''15s''"
  "math_round (15 * (3100 / 3) / 1000) = 16"
proof -
  show a: "averageTime [1000, 1000, 1100] = 4544648061474133 / 4398046511104"
    by (simp add: averageTime_def to_double_eval)
  show b: "to_double (15 * averageTime [1000, 1000, 1100]) = 8521215115263999 / 549755813888"
    unfolding a by (simp add: to_double_eval)
  show "formatTimeRemaining (to_double (15 * averageTime [1000, 1000, 1100])) = ''15s''"
    unfolding b by (simp add: formatTimeRemaining_def math_round_def to_double_eval show_int_samples)
  show "math_round (15 * (3100 / 3) / 1000) = 16"
    by (simp add: math_round_def floor_rat_numeral)
qed

lemma estimate_samples:
  "formatTimeRemaining (to_double (of_int (int 3 - int 2) * averageTime [20000])) = ''20s''"
  "formatTimeRemaining (estimatedRemainingMs 3 2 [20000, 5000]) = ''13s''"
  by (simp_all add: estimatedRemainingMs_def averageTime_def formatTimeRemaining_def math_round_def
                    to_double_eval show_int_samples)

text \<open>
  Claim C6, as the code has it. A run over \<open>n\<close> tasks sends \<open>n + 1\<close> progress reports. The
  report sent as task \<open>k\<close> starts carries processed = \<open>k\<close> and an estimated remaining
  time of \<open>(n - k)\<close> times the average of the durations recorded so far, where the
  average is 45000 ms while nothing is recorded; the last report carries processed =
  \<open>n\<close> and no estimate. A task's wall-clock duration is appended to the timing history
  when its creation request succeeds; a task that fails or is skipped appends nothing.
  The average and the product are JavaScript numbers: the quotient of the sum by the
  count is rounded to a double, and so is the product. With the durations 1000, 1000 and
  1100 recorded and 15 tasks remaining, the estimate is printed as 15 seconds.
\<close>

theorem progress_and_timing:
  assumes run: "processBulkDualSubtitles (Some episodes) world p s cfg = Inr st"
  shows
    "length (reports st) = length (taskList episodes p s) + 1
   \<and> reports st ! length (taskList episodes p s) = finalReport (length (taskList episodes p s))
   \<and> (\<forall>k < length (taskList episodes p s).
         processed (reports st ! k) = k
       \<and> total (reports st ! k) = length (taskList episodes p s)
       \<and> estimatedTimeRemaining (reports st ! k)
           = Some (formatTimeRemaining
                     (to_double (of_int (int (length (taskList episodes p s)) - int k)
                        * averageTime (recordedBefore world p s cfg k)))))
   \<and> episodeTimes st = recordedBefore world p s cfg (length (taskList episodes p s))
   \<and> recordedBefore world p s cfg 0 = []
   \<and> (\<forall>k. recordedBefore world p s cfg (Suc k)
             = recordedBefore world p s cfg k
               @ (case attempt (world k) p s cfg of
                    Done config result \<Rightarrow> [endTime (world k) - startTime (world k)]
                  | _ \<Rightarrow> []))
   \<and> averageTime [] = 45000
   \<and> (\<forall>ts. ts \<noteq> [] \<longrightarrow> averageTime ts = to_double (of_int (sum_list ts) / of_nat (length ts)))
   \<and> averageTime [1000, 1000, 1100] = 4544648061474133 / 4398046511104
   \<and> formatTimeRemaining (to_double (15 * averageTime [1000, 1000, 1100])) = ''15s''"
proof -
  let ?tasks = "taskList episodes p s"
  have st: "st = runTasks world p s cfg ?tasks"
    using run by (rule run_is_runTasks)
  have a: "length (reports st) = length ?tasks + 1"
    unfolding st by (rule reports_runTasks(1))
  have b: "reports st ! length ?tasks = finalReport (length ?tasks)"
    unfolding st by (rule reports_runTasks(2))
  have c: "\<forall>k < length ?tasks.
         processed (reports st ! k) = k
       \<and> total (reports st ! k) = length ?tasks
       \<and> estimatedTimeRemaining (reports st ! k)
           = Some (formatTimeRemaining
                     (to_double (of_int (int (length ?tasks) - int k)
                        * averageTime (recordedBefore world p s cfg k))))"
    unfolding st by (simp add: reports_runTasks(3) progressReport_def estimatedRemainingMs_def)
  have d: "episodeTimes st = recordedBefore world p s cfg (length ?tasks)"
    unfolding st by (rule episodeTimes_runTasks)
  have e: "recordedBefore world p s cfg 0 = []"
    by (simp add: recordedBefore_def)
  show ?thesis
    by (rule conjI [OF a conjI [OF b conjI [OF c conjI [OF d conjI [OF e conjI [OF recordedBefore_step
          conjI [OF averageTime_sum(1) conjI [OF averageTime_sum(2)
          conjI [OF estimate_of_three_durations(1) estimate_of_three_durations(3)]]]]]]]]])
qed

theorem progress_and_timing_witness:
  "processBulkDualSubtitles (Some sampleShow) sampleWorld ''en'' ''ja'' sampleConfig
     = Inr (runTasks sampleWorld ''en'' ''ja'' sampleConfig (taskList sampleShow ''en'' ''ja''))
   \<and> length (taskList sampleShow ''en'' ''ja'') = 3
   \<and> length (reports (runTasks sampleWorld ''en'' ''ja'' sampleConfig (taskList sampleShow ''en'' ''ja''))) = 4
   \<and> recordedBefore sampleWorld ''en'' ''ja'' sampleConfig 2 = [20000]
   \<and> processed (reports (runTasks sampleWorld ''en'' ''ja'' sampleConfig
                             (taskList sampleShow ''en'' ''ja'')) ! 2) = 2
   \<and> estimatedTimeRemaining (reports (runTasks sampleWorld ''en'' ''ja'' sampleConfig
                                          (taskList sampleShow ''en'' ''ja'')) ! 2) = Some ''20s''
   \<and> episodeTimes (runTasks sampleWorld ''en'' ''ja'' sampleConfig (taskList sampleShow ''en'' ''ja''))
       = recordedBefore sampleWorld ''en'' ''ja'' sampleConfig 3
   \<and> [20000] \<noteq> [] \<and> averageTime [20000] = to_double (of_int (sum_list [20000]) / of_nat (length [20000::int]))"
proof -
  let ?tasks = "taskList sampleShow ''en'' ''ja''"
  let ?st = "runTasks sampleWorld ''en'' ''ja'' sampleConfig ?tasks"
  have run: "processBulkDualSubtitles (Some sampleShow) sampleWorld ''en'' ''ja'' sampleConfig = Inr ?st"
    by (rule run_available; code_simp)
  have n: "length ?tasks = 3" by code_simp
  have rb: "recordedBefore sampleWorld ''en'' ''ja'' sampleConfig 2 = [20000]" by code_simp
  note fmt = estimate_samples(1)
  note t = progress_and_timing [OF run]
  from t have a: "length (reports ?st) = 4"
    unfolding n by simp
  from t have "processed (reports ?st ! 2) = 2
       \<and> estimatedTimeRemaining (reports ?st ! 2)
           = Some (formatTimeRemaining (to_double (of_int (int 3 - int 2)
                     * averageTime (recordedBefore sampleWorld ''en'' ''ja'' sampleConfig 2))))"
    unfolding n by simp
  then have b: "processed (reports ?st ! 2) = 2"
    and c: "estimatedTimeRemaining (reports ?st ! 2) = Some ''20s''"
    unfolding rb fmt by simp_all
  from t have d: "episodeTimes ?st = recordedBefore sampleWorld ''en'' ''ja'' sampleConfig 3"
    unfolding n by blast
  from t have "\<forall>ts. ts \<noteq> [] \<longrightarrow> averageTime ts = to_double (of_int (sum_list ts) / of_nat (length ts))"
    by blast
  then have e: "averageTime [20000] = to_double (of_int (sum_list [20000]) / of_nat (length [20000::int]))"
    by blast
  from run n a rb b c d e show ?thesis by blast
qed

text \<open>
  The claim as it was stated has every task's duration appended to the timing history.
  In the sample run three tasks are attempted, and the history at the end holds one
  duration, that of the task that succeeded; the estimate reported before the third
  task is one remaining task times that single duration.
\<close>

theorem timing_history_skips_unsuccessful_tasks:
  "length (taskList sampleShow ''en'' ''ja'') = 3
   \<and> map_sum (\<lambda>failure. failure)
        (\<lambda>st. (processed (last (reports st)), episodeTimes st, estimatedTimeRemaining (reports st ! 2)))
        (processBulkDualSubtitles (Some sampleShow) sampleWorld ''en'' ''ja'' sampleConfig)
      = Inr (3, [20000], Some ''20s'')"
proof -
  let ?tasks = "taskList sampleShow ''en'' ''ja''"
  let ?st = "runTasks sampleWorld ''en'' ''ja'' sampleConfig ?tasks"
  have run: "processBulkDualSubtitles (Some sampleShow) sampleWorld ''en'' ''ja'' sampleConfig = Inr ?st"
    by (rule run_available; code_simp)
  have n: "length ?tasks = 3" by code_simp
  have rb2: "recordedBefore sampleWorld ''en'' ''ja'' sampleConfig 2 = [20000]" by code_simp
  have rb3: "recordedBefore sampleWorld ''en'' ''ja'' sampleConfig 3 = [20000]" by code_simp
  have l: "processed (last (reports ?st)) = 3"
    by (simp add: runTasks_eq finalReport_def n)
  have t: "episodeTimes ?st = [20000]"
    by (simp add: episodeTimes_runTasks n rb3)
  have "2 < length ?tasks" by (simp add: n)
  then have "reports ?st ! 2 = progressReport (length ?tasks) 2 (?tasks ! 2)
                                 (recordedBefore sampleWorld ''en'' ''ja'' sampleConfig 2)"
    by (rule reports_runTasks(3))
  then have e: "estimatedTimeRemaining (reports ?st ! 2) = Some ''20s''"
    unfolding n rb2 using estimate_samples(1) by (simp add: progressReport_def estimatedRemainingMs_def)
  show ?thesis
    unfolding run by (simp add: n l t e)
qed

text \<open>
  Claim C7. The estimate reported at a task boundary depends only on the multiset of the
  durations recorded up to there and on the number of remaining tasks: two runs (of any
  shows, languages and worlds) that agree on both report the same estimated remaining
  time and the same average, whatever the order in which the durations were recorded.
\<close>

theorem estimate_independent_of_order:
  assumes run: "processBulkDualSubtitles (Some episodes) world p s cfg = Inr st"
      and run': "processBulkDualSubtitles (Some episodes') world' p' s' cfg' = Inr st'"
      and k: "k < length (taskList episodes p s)"
      and k': "k' < length (taskList episodes' p' s')"
      and remaining: "int (length (taskList episodes p s)) - int k
                        = int (length (taskList episodes' p' s')) - int k'"
      and durations: "mset (recordedBefore world p s cfg k) = mset (recordedBefore world' p' s' cfg' k')"
  shows "estimatedTimeRemaining (reports st ! k) = estimatedTimeRemaining (reports st' ! k')
       \<and> averageTimePerEpisode (reports st ! k) = averageTimePerEpisode (reports st' ! k')
       \<and> estimatedRemainingMs (length (taskList episodes p s)) k (recordedBefore world p s cfg k)
           = estimatedRemainingMs (length (taskList episodes' p' s')) k' (recordedBefore world' p' s' cfg' k')"
proof -
  have st: "st = runTasks world p s cfg (taskList episodes p s)"
    using run by (rule run_is_runTasks)
  have st': "st' = runTasks world' p' s' cfg' (taskList episodes' p' s')"
    using run' by (rule run_is_runTasks)
  have avg: "averageTime (recordedBefore world p s cfg k) = averageTime (recordedBefore world' p' s' cfg' k')"
    using durations by (rule averageTime_mset)
  have ms: "estimatedRemainingMs (length (taskList episodes p s)) k (recordedBefore world p s cfg k)
            = estimatedRemainingMs (length (taskList episodes' p' s')) k' (recordedBefore world' p' s' cfg' k')"
    unfolding estimatedRemainingMs_def avg remaining ..
  have r: "reports st ! k = progressReport (length (taskList episodes p s)) k
                              (taskList episodes p s ! k) (recordedBefore world p s cfg k)"
    unfolding st using k by (rule reports_runTasks(3))
  have r': "reports st' ! k' = progressReport (length (taskList episodes' p' s')) k'
                              (taskList episodes' p' s' ! k') (recordedBefore world' p' s' cfg' k')"
    unfolding st' using k' by (rule reports_runTasks(3))
  show ?thesis
    unfolding r r' by (simp add: progressReport_def ms avg)
qed

theorem estimate_independent_of_order_witness:
  "processBulkDualSubtitles (Some sampleShow) (steadyWorld [20000, 5000, 7000]) ''en'' ''ja'' sampleConfig
     = Inr (runTasks (steadyWorld [20000, 5000, 7000]) ''en'' ''ja'' sampleConfig (taskList sampleShow ''en'' ''ja''))
   \<and> processBulkDualSubtitles (Some sampleShow) (steadyWorld [5000, 20000, 7000]) ''en'' ''ja'' sampleConfig
     = Inr (runTasks (steadyWorld [5000, 20000, 7000]) ''en'' ''ja'' sampleConfig (taskList sampleShow ''en'' ''ja''))
   \<and> length (taskList sampleShow ''en'' ''ja'') = 3
   \<and> recordedBefore (steadyWorld [20000, 5000, 7000]) ''en'' ''ja'' sampleConfig 2 = [20000, 5000]
   \<and> recordedBefore (steadyWorld [5000, 20000, 7000]) ''en'' ''ja'' sampleConfig 2 = [5000, 20000]
   \<and> estimatedTimeRemaining
        (reports (runTasks (steadyWorld [20000, 5000, 7000]) ''en'' ''ja'' sampleConfig
                    (taskList sampleShow ''en'' ''ja'')) ! 2) = Some ''13s''
   \<and> estimatedTimeRemaining
        (reports (runTasks (steadyWorld [5000, 20000, 7000]) ''en'' ''ja'' sampleConfig
                    (taskList sampleShow ''en'' ''ja'')) ! 2) = Some ''13s''"
proof -
  let ?tasks = "taskList sampleShow ''en'' ''ja''"
  let ?w = "steadyWorld [20000, 5000, 7000]" and ?w' = "steadyWorld [5000, 20000, 7000]"
  let ?st = "runTasks ?w ''en'' ''ja'' sampleConfig ?tasks"
  let ?st' = "runTasks ?w' ''en'' ''ja'' sampleConfig ?tasks"
  have run: "processBulkDualSubtitles (Some sampleShow) ?w ''en'' ''ja'' sampleConfig = Inr ?st"
    by (rule run_available; code_simp)
  have run': "processBulkDualSubtitles (Some sampleShow) ?w' ''en'' ''ja'' sampleConfig = Inr ?st'"
    by (rule run_available; code_simp)
  have n: "length ?tasks = 3" by code_simp
  have k: "2 < length ?tasks" by (simp add: n)
  have rb: "recordedBefore ?w ''en'' ''ja'' sampleConfig 2 = [20000, 5000]" by code_simp
  have rb': "recordedBefore ?w' ''en'' ''ja'' sampleConfig 2 = [5000, 20000]" by code_simp
  have m: "mset (recordedBefore ?w ''en'' ''ja'' sampleConfig 2)
           = mset (recordedBefore ?w' ''en'' ''ja'' sampleConfig 2)"
    unfolding rb rb' by simp
  have "reports ?st ! 2 = progressReport (length ?tasks) 2 (?tasks ! 2)
                            (recordedBefore ?w ''en'' ''ja'' sampleConfig 2)"
    using k by (rule reports_runTasks(3))
  then have e: "estimatedTimeRemaining (reports ?st ! 2) = Some ''13s''"
    unfolding n rb using estimate_samples(2) by (simp add: progressReport_def)
  from estimate_independent_of_order [OF run run' k k refl m] e
  have e': "estimatedTimeRemaining (reports ?st' ! 2) = Some ''13s''"
    by simp
  from run run' n rb rb' e e' show ?thesis by blast
qed

end
